theory Spec2Isabelle
  imports Main "HOL-Library.AList" "HOL-Library.Transitive_Closure_Table"
    "HOL-Library.List_Lexorder" "HOL-Library.Char_ord"
begin

section \<open>The composite-record layer of pystachio (pystachio/composite.py)\<close>

text \<open>
  The module builds on collaborators that live in other modules of the package
  (\<^verbatim>\<open>base\<close>, \<^verbatim>\<open>naming\<close>, \<^verbatim>\<open>typing\<close>): the generic field-value capability,
  the scope frames, the path references and the type registry.  Their operations are
  taken as parameters, bundled in records of functions, so every definition below
  follows the text of \<^verbatim>\<open>composite.py\<close> and every virtual call stays a call.
\<close>

subsection \<open>Data\<close>

type_synonym name = string

text \<open>
  A field slot: the \<^verbatim>\<open>Empty\<close> sentinel, or any other Python value (a raw value or an
  instance of a wrapped type).
\<close>

datatype 'a slot = Empty | Val 'a

text \<open>
  The exceptions the module raises or lets through.  \<^verbatim>\<open>TypeError\<close> is the one Python
  raises when a call cannot bind its arguments.
\<close>

datatype error =
    AttributeError string
  | ValueError
  | KeyError name
  | NamingError
  | NotFound
  | Unnamable
  | CoercionError
  | TypeError

text \<open>
  Modelled from the spec: the check-result capability (\<^verbatim>\<open>TypeCheck\<close> of
  \<^verbatim>\<open>pystachio.typing\<close>): success, or failure with an attached message.
\<close>

datatype TypeCheck = Success | Failure string

fun ok :: "TypeCheck \<Rightarrow> bool" where
  "ok Success = True"
| "ok (Failure m) = False"

fun message :: "TypeCheck \<Rightarrow> string" where
  "message Success = []"
| "message (Failure m) = m"

text \<open>
  \<^verbatim>\<open>TypeSignature\<close>: the wrapped class, the required flag and the default, which is
  \<^verbatim>\<open>Empty\<close> or an instance of the class.
\<close>

record ('a, 'k) TypeSignature =
  klazz :: 'k
  required :: bool
  default :: "'a slot"

definition empty :: "('a, 'k) TypeSignature \<Rightarrow> bool" where
  "empty sig \<longleftrightarrow> default sig = Empty"

text \<open>A class derived from \<^verbatim>\<open>Structural\<close>: its name and its \<^verbatim>\<open>TYPEMAP\<close>.\<close>

record ('a, 'k) struct_cls =
  cls_name :: string
  TYPEMAP :: "(name \<times> ('a, 'k) TypeSignature) list"

text \<open>
  The state of a \<^verbatim>\<open>Structural\<close> object: its class, its \<^verbatim>\<open>_value\<close> dictionary and
  its \<^verbatim>\<open>_scopes\<close> tuple.
\<close>

record ('a, 'k, 'f) structural =
  s_class :: "('a, 'k) struct_cls"
  s_value :: "(name \<times> 'a slot) list"
  s_scopes :: "'f list"

text \<open>
  The generic field-value capability and the scope-frame constructor, as the module
  uses them: \<^verbatim>\<open>isinstance(v, k)\<close>, \<^verbatim>\<open>k(v)\<close> (which may raise), \<^verbatim>\<open>v.in_scope(*fs)\<close>,
  \<^verbatim>\<open>v.check()\<close>, \<^verbatim>\<open>v.interpolate()\<close>, \<^verbatim>\<open>v.get()\<close>, \<^verbatim>\<open>v == w\<close>,
  \<^verbatim>\<open>Environment(d)\<close> and the empty tuple \<^verbatim>\<open>()\<close>.
\<close>

record ('a, 'k, 'f) collab =
  isinstance :: "'a \<Rightarrow> 'k \<Rightarrow> bool"
  instantiate :: "'k \<Rightarrow> 'a \<Rightarrow> error + 'a"
  in_scope :: "'a \<Rightarrow> 'f list \<Rightarrow> 'a"
  obj_check :: "'a \<Rightarrow> TypeCheck"
  obj_interpolate :: "'a \<Rightarrow> 'a \<times> name list"
  obj_get :: "'a \<Rightarrow> 'a"
  obj_eq :: "'a \<Rightarrow> 'a \<Rightarrow> bool"
  Environment :: "(name \<times> 'a) list \<Rightarrow> 'f"
  empty_tuple :: 'a

text \<open>A positional argument of a constructor call: a \<^verbatim>\<open>Mapping\<close> or anything else.\<close>

datatype 'a posarg = Mapping "(name \<times> 'a slot) list" | NotMapping 'a

subsection \<open>Dictionaries\<close>

text \<open>
  A dictionary is an association list in iteration order; \<^verbatim>\<open>d[k] = v\<close> is
  \<^const>\<open>AList.update\<close>, and \<^verbatim>\<open>dict(pairs)\<close> (as \<^verbatim>\<open>frozendict(pairs)\<close>) stores the
  pairs one after the other.
\<close>

definition dict :: "('k \<times> 'v) list \<Rightarrow> ('k \<times> 'v) list" where
  "dict items = foldl (\<lambda>d (k, v). AList.update k v d) [] items"

definition frozendict :: "('k \<times> 'v) list \<Rightarrow> ('k \<times> 'v) list" where
  "frozendict items = dict items"

subsection \<open>Construction: \<^verbatim>\<open>_process_schema_attribute\<close>, \<^verbatim>\<open>_update_schema_data\<close>, \<^verbatim>\<open>apply\<close>\<close>

definition process_schema_attribute ::
  "('a, 'k, 'f) collab \<Rightarrow> ('a, 'k) struct_cls \<Rightarrow> name \<Rightarrow> 'a slot \<Rightarrow> error + 'a slot" where
  "process_schema_attribute ops cls attr v =
     (case map_of (TYPEMAP cls) attr of
        None \<Rightarrow> Inl (AttributeError (''Unknown schema attribute '' @ attr))
      | Some schema_type \<Rightarrow>
          (case v of
             Empty \<Rightarrow> Inr Empty
           | Val x \<Rightarrow>
               if isinstance ops x (klazz schema_type) then Inr (Val x)
               else (case instantiate ops (klazz schema_type) x of
                       Inl e \<Rightarrow> Inl e
                     | Inr y \<Rightarrow> Inr (Val y))))"

text \<open>
  The overrides reach \<^verbatim>\<open>_update_schema_data\<close>, \<^verbatim>\<open>apply\<close> and \<^verbatim>\<open>__call__\<close> as
  keyword arguments (\<^verbatim>\<open>**kw\<close>, \<^verbatim>\<open>**arg\<close>), after the parameters that the call has
  bound by position.  A keyword whose name is that of such a parameter cannot be
  bound a second time: Python raises \<^verbatim>\<open>TypeError\<close> at the call, before the body of
  the function runs.  \<open>clashes params kw\<close> says that \<open>kw\<close> holds such a keyword.
\<close>

definition clashes :: "name list \<Rightarrow> (name \<times> 'v) list \<Rightarrow> bool" where
  "clashes params kw \<longleftrightarrow> list_ex (\<lambda>(attr, v). attr \<in> set params) kw"

text \<open>
  The loop of \<^verbatim>\<open>_update_schema_data\<close>.  It mutates the dictionary it is given, entry
  by entry, and an exception leaves it as far as the loop got: the result is the
  exception, if any, and the dictionary as it then stands.
\<close>

fun update_schema_items ::
  "('a, 'k, 'f) collab \<Rightarrow> ('a, 'k) struct_cls \<Rightarrow> (name \<times> 'a slot) list \<Rightarrow>
   (name \<times> 'a slot) list \<Rightarrow> error option \<times> (name \<times> 'a slot) list" where
  "update_schema_items ops cls d [] = (None, d)"
| "update_schema_items ops cls d ((attr, v) # kw) =
     (case process_schema_attribute ops cls attr v of
        Inl e \<Rightarrow> (Some e, d)
      | Inr x \<Rightarrow> update_schema_items ops cls (AList.update attr x d) kw)"

text \<open>
  \<^verbatim>\<open>_update_schema_data(cls, value, **kw)\<close>: every caller binds \<^verbatim>\<open>cls\<close> and
  \<^verbatim>\<open>value\<close> by position, so an override named \<^verbatim>\<open>cls\<close> or \<^verbatim>\<open>value\<close> raises
  \<^verbatim>\<open>TypeError\<close> and the dictionary is not touched; otherwise the loop runs.
\<close>

definition update_schema_data ::
  "('a, 'k, 'f) collab \<Rightarrow> ('a, 'k) struct_cls \<Rightarrow> (name \<times> 'a slot) list \<Rightarrow>
   (name \<times> 'a slot) list \<Rightarrow> error option \<times> (name \<times> 'a slot) list" where
  "update_schema_data ops cls d kw =
     (if clashes [''cls'', ''value''] kw then (Some TypeError, d)
      else update_schema_items ops cls d kw)"

text \<open>The loop of \<^verbatim>\<open>apply\<close> over the positional arguments.\<close>

fun apply_args ::
  "('a, 'k, 'f) collab \<Rightarrow> ('a, 'k) struct_cls \<Rightarrow> (name \<times> 'a slot) list \<Rightarrow>
   'a posarg list \<Rightarrow> error + (name \<times> 'a slot) list" where
  "apply_args ops cls d [] = Inr d"
| "apply_args ops cls d (NotMapping x # args) = Inl ValueError"
| "apply_args ops cls d (Mapping m # args) =
     (case update_schema_data ops cls d m of
        (Some e, _) \<Rightarrow> Inl e
      | (None, d') \<Rightarrow> apply_args ops cls d' args)"

text \<open>
  \<^verbatim>\<open>apply(cls, *args, **kw)\<close>: the class is bound by position, so a keyword named
  \<^verbatim>\<open>cls\<close> raises \<^verbatim>\<open>TypeError\<close> at the call; otherwise the positional arguments are
  processed, then the keywords.
\<close>

definition Structural_apply ::
  "('a, 'k, 'f) collab \<Rightarrow> ('a, 'k) struct_cls \<Rightarrow> 'a posarg list \<Rightarrow>
   (name \<times> 'a slot) list \<Rightarrow> error + (name \<times> 'a slot) list" where
  "Structural_apply ops cls args kw =
     (if clashes [''cls''] kw then Inl TypeError
      else
        (case apply_args ops cls
                (frozendict (map (\<lambda>(attr, v). (attr, default v)) (TYPEMAP cls))) args of
           Inl e \<Rightarrow> Inl e
         | Inr d \<Rightarrow>
             (case update_schema_data ops cls d kw of
                (Some e, _) \<Rightarrow> Inl e
              | (None, d') \<Rightarrow> Inr d')))"

text \<open>
  Modelled from the spec: the constructor \<^verbatim>\<open>cls(*args, **kw)\<close> (\<^verbatim>\<open>__init__\<close> is
  inherited from \<^verbatim>\<open>pystachio.base\<close>).  A composite value is created by construction
  from the schema defaults and the override maps, that is from \<^verbatim>\<open>apply\<close>, and starts
  with no inherited outer frame.  The constructor is a method: it takes the overrides
  as keywords after its receiver \<^verbatim>\<open>self\<close>, so a keyword of that name cannot be
  bound.
\<close>

definition Structural_new ::
  "('a, 'k, 'f) collab \<Rightarrow> ('a, 'k) struct_cls \<Rightarrow> 'a posarg list \<Rightarrow>
   (name \<times> 'a slot) list \<Rightarrow> error + ('a, 'k, 'f) structural" where
  "Structural_new ops cls args kw =
     (if clashes [''self''] kw then Inl TypeError
      else
        (case Structural_apply ops cls args kw of
           Inl e \<Rightarrow> Inl e
         | Inr d \<Rightarrow> Inr \<lparr>s_class = cls, s_value = d, s_scopes = []\<rparr>))"

subsection \<open>Functional update: \<^verbatim>\<open>__call__\<close>\<close>

text \<open>
  \<^verbatim>\<open>__call__\<close> mutates a dictionary, so whether the receiver changes depends on which
  dictionary that is.  Here the dictionaries live in a store, addressed by position,
  and an object refers to its \<^verbatim>\<open>_value\<close> by address; \<open>deref\<close> reads the state of an
  object from the store.
\<close>

record ('a, 'k, 'f) structural_ref =
  r_class :: "('a, 'k) struct_cls"
  r_value :: nat
  r_scopes :: "'f list"

type_synonym 'a store = "(name \<times> 'a slot) list list"

definition deref :: "'a store \<Rightarrow> ('a, 'k, 'f) structural_ref \<Rightarrow> ('a, 'k, 'f) structural" where
  "deref h r = \<lparr>s_class = r_class r, s_value = h ! r_value r, s_scopes = r_scopes r\<rparr>"

text \<open>
  Modelled from the spec: \<^verbatim>\<open>copy()\<close> (inherited from \<^verbatim>\<open>pystachio.base\<close>).  The new
  value holds a copy of the current mapping, in a dictionary of its own, and the same
  class and frames.
\<close>

definition Structural_copy ::
  "'a store \<Rightarrow> ('a, 'k, 'f) structural_ref \<Rightarrow> 'a store \<times> ('a, 'k, 'f) structural_ref" where
  "Structural_copy h self = (h @ [h ! r_value self], self\<lparr>r_value := length h\<rparr>)"

text \<open>
  \<^verbatim>\<open>__call__(self, **kw)\<close>: a keyword named \<^verbatim>\<open>self\<close> raises \<^verbatim>\<open>TypeError\<close> at the
  call, before the copy is made; otherwise the receiver is copied and the copy's
  dictionary is updated.
\<close>

definition Structural_call ::
  "('a, 'k, 'f) collab \<Rightarrow> 'a store \<Rightarrow> ('a, 'k, 'f) structural_ref \<Rightarrow>
   (name \<times> 'a slot) list \<Rightarrow> 'a store \<times> (error + ('a, 'k, 'f) structural_ref)" where
  "Structural_call ops h self kw =
     (if clashes [''self''] kw then (h, Inl TypeError)
      else
        (case Structural_copy h self of
           (h1, new_self) \<Rightarrow>
             (case update_schema_data ops (r_class self) (h1 ! r_value new_self) kw of
                (Some e, d) \<Rightarrow> (h1[r_value new_self := d], Inl e)
              | (None, d) \<Rightarrow> (h1[r_value new_self := d], Inr new_self))))"

subsection \<open>\<^verbatim>\<open>scopes\<close>, \<^verbatim>\<open>check\<close>, \<^verbatim>\<open>interpolate\<close>\<close>

definition self_scope :: "(name \<times> 'a slot) list \<Rightarrow> (name \<times> 'a) list" where
  "self_scope d =
     dict (List.map_filter (\<lambda>(key, v). case v of Empty \<Rightarrow> None | Val x \<Rightarrow> Some (key, x)) d)"

definition Structural_scopes ::
  "('a, 'k, 'f) collab \<Rightarrow> ('a, 'k, 'f) structural \<Rightarrow> 'f list" where
  "Structural_scopes ops self = Environment ops (self_scope (s_value self)) # s_scopes self"

text \<open>
  The loop of \<^verbatim>\<open>check\<close> over \<^verbatim>\<open>TYPEMAP.items()\<close>.  \<^verbatim>\<open>self._value[name]\<close> raises
  \<^verbatim>\<open>KeyError\<close> on a missing key.
\<close>

fun check_items ::
  "('a, 'k, 'f) collab \<Rightarrow> ('a, 'k, 'f) structural \<Rightarrow>
   (name \<times> ('a, 'k) TypeSignature) list \<Rightarrow> error + TypeCheck" where
  "check_items ops self [] = Inr Success"
| "check_items ops self ((name, signature) # items) =
     (case map_of (s_value self) name of
        None \<Rightarrow> Inl (KeyError name)
      | Some Empty \<Rightarrow>
          if required signature
          then Inr (Failure (cls_name (s_class self) @ ''['' @ name @ ''] is required.''))
          else check_items ops self items
      | Some (Val x) \<Rightarrow>
          (let type_check = obj_check ops (in_scope ops x (Structural_scopes ops self)) in
           if ok type_check then check_items ops self items
           else Inr (Failure (cls_name (s_class self) @ ''['' @ name @ ''] failed: '' @
                              message type_check))))"

definition Structural_check ::
  "('a, 'k, 'f) collab \<Rightarrow> ('a, 'k, 'f) structural \<Rightarrow> error + TypeCheck" where
  "Structural_check ops self = check_items ops self (TYPEMAP (s_class self))"

text \<open>
  The loop of \<^verbatim>\<open>interpolate\<close> over \<^verbatim>\<open>self._value.items()\<close>, with its two
  accumulators: the dictionary \<^verbatim>\<open>interpolated_schema_data\<close> and the set \<^verbatim>\<open>unbound\<close>
  (a list without repetition; \<^verbatim>\<open>list(unbound)\<close> returns it in some order).
\<close>

fun interpolate_items ::
  "('a, 'k, 'f) collab \<Rightarrow> 'f list \<Rightarrow> (name \<times> 'a slot) list \<Rightarrow>
   (name \<times> 'a slot) list \<times> name list \<Rightarrow> (name \<times> 'a slot) list \<times> name list" where
  "interpolate_items ops scopes [] acc = acc"
| "interpolate_items ops scopes ((key, v) # items) (data, unbound) =
     (case v of
        Empty \<Rightarrow> interpolate_items ops scopes items (AList.update key Empty data, unbound)
      | Val x \<Rightarrow>
          (case obj_interpolate ops (in_scope ops x scopes) of
             (vinterp, vunbound) \<Rightarrow>
               interpolate_items ops scopes items
                 (AList.update key (Val vinterp) data, List.union vunbound unbound)))"

definition Structural_interpolate ::
  "('a, 'k, 'f) collab \<Rightarrow> ('a, 'k, 'f) structural \<Rightarrow>
   error + (('a, 'k, 'f) structural \<times> name list)" where
  "Structural_interpolate ops self =
     (case interpolate_items ops (Structural_scopes ops self) (s_value self) ([], []) of
        (data, unbound) \<Rightarrow>
          (case Structural_new ops (s_class self) [] data of
             Inl e \<Rightarrow> Inl e
           | Inr new_self \<Rightarrow> Inr (new_self, unbound)))"

subsection \<open>\<^verbatim>\<open>find\<close>\<close>

text \<open>
  The path-addressable capability of \<^verbatim>\<open>pystachio.naming\<close>, as \<^verbatim>\<open>find\<close> uses it:
  \<^verbatim>\<open>ref.is_dereference()\<close>, \<^verbatim>\<open>ref.action().value\<close>, \<^verbatim>\<open>ref.rest()\<close>,
  \<^verbatim>\<open>ref.is_empty()\<close>, \<^verbatim>\<open>isinstance(v, Namable)\<close> and \<^verbatim>\<open>v.find(ref)\<close>.
\<close>

record ('a, 'r) naming =
  is_dereference :: "'r \<Rightarrow> bool"
  action_value :: "'r \<Rightarrow> name"
  rest :: "'r \<Rightarrow> 'r"
  is_empty :: "'r \<Rightarrow> bool"
  is_namable :: "'a \<Rightarrow> bool"
  obj_find :: "'a \<Rightarrow> 'r \<Rightarrow> error + 'a"

definition Structural_find ::
  "('a, 'r) naming \<Rightarrow> ('a, 'k, 'f) collab \<Rightarrow> ('a, 'k, 'f) structural \<Rightarrow> 'r \<Rightarrow>
   error + 'a" where
  "Structural_find nm ops self ref =
     (if \<not> is_dereference nm ref then Inl NamingError
      else
        (let name = action_value nm ref in
         if map_of (TYPEMAP (s_class self)) name = None then Inl NotFound
         else
           (case map_of (s_value self) name of
              None \<Rightarrow> Inl (KeyError name)
            | Some Empty \<Rightarrow> Inl NotFound
            | Some (Val namable) \<Rightarrow>
                if is_empty nm (rest nm ref)
                then Inr (in_scope ops namable (Structural_scopes ops self))
                else if \<not> is_namable nm namable then Inl Unnamable
                else obj_find nm (in_scope ops namable (Structural_scopes ops self))
                       (rest nm ref))))"

subsection \<open>\<^verbatim>\<open>TypeSignature\<close>: construction, \<^verbatim>\<open>serialize\<close>, \<^verbatim>\<open>deserialize\<close>, \<^verbatim>\<open>__eq__\<close>\<close>

text \<open>
  The type registry of \<^verbatim>\<open>pystachio.typing\<close>, as the module uses it:
  \<^verbatim>\<open>k.serialize_type()\<close> and \<^verbatim>\<open>TypeFactory.new(type_dict, *descriptor)\<close>.
\<close>

record ('k, 'd, 't) registry =
  serialize_type :: "'k \<Rightarrow> 'd"
  TypeFactory_new :: "'t \<Rightarrow> 'd \<Rightarrow> error + 'k"

text \<open>
  \<^verbatim>\<open>TypeSignature.__init__\<close>: a default that is not an instance of the class is
  coerced by the class, which may raise.  (The two assertions on the class hold for
  every class of the type \<open>'k\<close>.)
\<close>

definition TypeSignature_init ::
  "('a, 'k, 'f) collab \<Rightarrow> 'k \<Rightarrow> bool \<Rightarrow> 'a slot \<Rightarrow> error + ('a, 'k) TypeSignature" where
  "TypeSignature_init ops cls req dflt =
     (case dflt of
        Empty \<Rightarrow> Inr \<lparr>klazz = cls, required = req, default = Empty\<rparr>
      | Val x \<Rightarrow>
          if \<not> isinstance ops x cls
          then (case instantiate ops cls x of
                  Inl e \<Rightarrow> Inl e
                | Inr y \<Rightarrow> Inr \<lparr>klazz = cls, required = req, default = Val y\<rparr>)
          else Inr \<lparr>klazz = cls, required = req, default = Val x\<rparr>)"

text \<open>
  The serialized tuple: \<^verbatim>\<open>required\<close>, then \<^verbatim>\<open>default.get()\<close> or, with no default, the
  empty tuple, then \<^verbatim>\<open>empty\<close> and the descriptor of the class.
\<close>

definition TypeSignature_serialize ::
  "('k, 'd, 't) registry \<Rightarrow> ('a, 'k, 'f) collab \<Rightarrow> ('a, 'k) TypeSignature \<Rightarrow>
   bool \<times> 'a \<times> bool \<times> 'd" where
  "TypeSignature_serialize reg ops sig =
     (required sig,
      (case default sig of Val x \<Rightarrow> obj_get ops x | Empty \<Rightarrow> empty_tuple ops),
      empty sig,
      serialize_type reg (klazz sig))"

definition TypeSignature_deserialize ::
  "('k, 'd, 't) registry \<Rightarrow> ('a, 'k, 'f) collab \<Rightarrow> bool \<times> 'a \<times> bool \<times> 'd \<Rightarrow> 't \<Rightarrow>
   error + ('a, 'k) TypeSignature" where
  "TypeSignature_deserialize reg ops sig type_dict =
     (case sig of
        (req, dflt, empty_flag, klazz_schema) \<Rightarrow>
          (case TypeFactory_new reg type_dict klazz_schema of
             Inl e \<Rightarrow> Inl e
           | Inr real_class \<Rightarrow>
               if \<not> empty_flag
               then (case instantiate ops real_class dflt of
                       Inl e \<Rightarrow> Inl e
                     | Inr x \<Rightarrow> TypeSignature_init ops real_class req (Val x))
               else TypeSignature_init ops real_class req Empty))"

text \<open>
  \<^verbatim>\<open>==\<close> on two slots: \<^verbatim>\<open>Empty\<close> is equal to itself only, and two values are
  compared by the wrapped type's own \<^verbatim>\<open>__eq__\<close>.
\<close>

fun slot_eq :: "('a, 'k, 'f) collab \<Rightarrow> 'a slot \<Rightarrow> 'a slot \<Rightarrow> bool" where
  "slot_eq ops Empty Empty = True"
| "slot_eq ops (Val x) (Val y) = obj_eq ops x y"
| "slot_eq ops _ _ = False"

definition TypeSignature_eq ::
  "('k, 'd, 't) registry \<Rightarrow> ('a, 'k, 'f) collab \<Rightarrow> ('a, 'k) TypeSignature \<Rightarrow>
   ('a, 'k) TypeSignature \<Rightarrow> bool" where
  "TypeSignature_eq reg ops self other \<longleftrightarrow>
     serialize_type reg (klazz self) = serialize_type reg (klazz other) \<and>
     required self = required other \<and>
     slot_eq ops (default self) (default other) \<and>
     empty self = empty other"

subsection \<open>\<^verbatim>\<open>type_parameters\<close> and \<^verbatim>\<open>StructFactory.create\<close>\<close>

text \<open>
  \<^verbatim>\<open>type_parameters\<close> sorts the pairs of a field name and a serialized signature; the
  names of a dictionary differ, so the order is that of the names.
\<close>

definition type_parameters ::
  "('k, 'd, 't) registry \<Rightarrow> ('a, 'k, 'f) collab \<Rightarrow> ('a, 'k) struct_cls \<Rightarrow>
   string \<times> (name \<times> bool \<times> 'a \<times> bool \<times> 'd) list" where
  "type_parameters reg ops cls =
     (cls_name cls,
      sort_key fst (map (\<lambda>(attr, sig). (attr, TypeSignature_serialize reg ops sig)) (TYPEMAP cls)))"

text \<open>
  \<^verbatim>\<open>StructFactory.create\<close> deserializes the signatures one after the other, stores
  them in a dictionary and makes the class.
\<close>

fun deserialize_parameters ::
  "('k, 'd, 't) registry \<Rightarrow> ('a, 'k, 'f) collab \<Rightarrow> 't \<Rightarrow>
   (name \<times> bool \<times> 'a \<times> bool \<times> 'd) list \<Rightarrow> error + (name \<times> ('a, 'k) TypeSignature) list" where
  "deserialize_parameters reg ops type_dict [] = Inr []"
| "deserialize_parameters reg ops type_dict ((attr, param) # parameters) =
     (case TypeSignature_deserialize reg ops param type_dict of
        Inl e \<Rightarrow> Inl e
      | Inr sig \<Rightarrow>
          (case deserialize_parameters reg ops type_dict parameters of
             Inl e \<Rightarrow> Inl e
           | Inr items \<Rightarrow> Inr ((attr, sig) # items)))"

definition StructFactory_create ::
  "('k, 'd, 't) registry \<Rightarrow> ('a, 'k, 'f) collab \<Rightarrow> 't \<Rightarrow>
   string \<times> (name \<times> bool \<times> 'a \<times> bool \<times> 'd) list \<Rightarrow> error + ('a, 'k) struct_cls" where
  "StructFactory_create reg ops type_dict params =
     (case params of
        (name, parameters) \<Rightarrow>
          (case deserialize_parameters reg ops type_dict parameters of
             Inl e \<Rightarrow> Inl e
           | Inr items \<Rightarrow> Inr \<lparr>cls_name = name, TYPEMAP = dict items\<rparr>))"

subsection \<open>\<^verbatim>\<open>__eq__\<close>\<close>

text \<open>
  Python's \<^verbatim>\<open>==\<close> on two dictionaries: as many entries, and every key of the first
  is a key of the second with an equal value.
\<close>

definition dict_equal ::
  "('v \<Rightarrow> 'w \<Rightarrow> bool) \<Rightarrow> (name \<times> 'v) list \<Rightarrow> (name \<times> 'w) list \<Rightarrow> bool" where
  "dict_equal veq a b \<longleftrightarrow>
     length a = length b \<and>
     list_all (\<lambda>(k, v). case map_of b k of None \<Rightarrow> False | Some w \<Rightarrow> veq v w) a"



subsection \<open>\<^verbatim>\<open>_filter_against_schema\<close>, \<^verbatim>\<open>json_load\<close>, \<^verbatim>\<open>json_loads\<close>\<close>

text \<open>
  \<^verbatim>\<open>values.items()\<close> exists on a dictionary only; on any other parsed document the
  attribute lookup raises.
\<close>

definition filter_against_schema ::
  "('a, 'k) struct_cls \<Rightarrow> 'a posarg \<Rightarrow> error + (name \<times> 'a slot) list" where
  "filter_against_schema cls vals =
     (case vals of
        NotMapping x \<Rightarrow> Inl (AttributeError ''items'')
      | Mapping m \<Rightarrow>
          Inr (dict (filter (\<lambda>(key, v). map_of (TYPEMAP cls) key \<noteq> None) m)))"

text \<open>
  The parser (\<^verbatim>\<open>json.load\<close>, \<^verbatim>\<open>json.loads\<close>) is a parameter: it raises, or returns the
  parsed document.
\<close>

definition json_loads ::
  "('s \<Rightarrow> error + 'a posarg) \<Rightarrow> ('a, 'k, 'f) collab \<Rightarrow> ('a, 'k) struct_cls \<Rightarrow> 's \<Rightarrow> bool \<Rightarrow>
   error + ('a, 'k, 'f) structural" where
  "json_loads loads ops cls json_string strict =
     (case loads json_string of
        Inl e \<Rightarrow> Inl e
      | Inr parsed \<Rightarrow>
          if strict then Structural_new ops cls [parsed] []
          else (case filter_against_schema cls parsed of
                  Inl e \<Rightarrow> Inl e
                | Inr d \<Rightarrow> Structural_new ops cls [Mapping d] []))"

definition json_load ::
  "('p \<Rightarrow> error + 'a posarg) \<Rightarrow> ('a, 'k, 'f) collab \<Rightarrow> ('a, 'k) struct_cls \<Rightarrow> 'p \<Rightarrow> bool \<Rightarrow>
   error + ('a, 'k, 'f) structural" where
  "json_load load ops cls fp strict =
     (case load fp of
        Inl e \<Rightarrow> Inl e
      | Inr parsed \<Rightarrow>
          if strict then Structural_new ops cls [parsed] []
          else (case filter_against_schema cls parsed of
                  Inl e \<Rightarrow> Inl e
                | Inr d \<Rightarrow> Structural_new ops cls [Mapping d] []))"

section \<open>A wrapped string type with placeholders\<close>

text \<open>
  Modelled from the spec: the wrapped types, their placeholder resolution and the
  scope frames belong to \<^verbatim>\<open>pystachio.base\<close> and its neighbours, which
  \<^verbatim>\<open>composite.py\<close> only calls.  What follows is one wrapped type, a string with
  embedded placeholders, with the resolution the spec mandates: a placeholder is
  looked up in the frames of the chain, innermost first; the text it is bound to is
  resolved in turn; the names being resolved on the active call path are tracked,
  and revisiting one ends that branch with the name unbound; a name that no frame
  binds is unbound.
\<close>

datatype frag = Lit string | Ref name

type_synonym template = "frag list"

type_synonym frame = "(name \<times> template) list"

text \<open>
  A Python value of this universe: the empty tuple, a raw string (already split into
  literal text and placeholders), or an instance of the wrapped type with its attached
  frames.
\<close>

datatype pyval = RawUnit | Raw template | Str template "frame list"

datatype wrapped = StringT

fun chain_lookup :: "frame list \<Rightarrow> name \<Rightarrow> template option" where
  "chain_lookup [] n = None"
| "chain_lookup (f # fs) n =
     (case map_of f n of Some t \<Rightarrow> Some t | None \<Rightarrow> chain_lookup fs n)"

definition bound_names :: "frame list \<Rightarrow> name set" where
  "bound_names fs = (\<Union>f \<in> set fs. fst ` set f)"

lemma chain_lookup_bound: "chain_lookup fs n = Some t \<Longrightarrow> n \<in> bound_names fs"
  by (induction fs)
     (auto simp: bound_names_def split: option.splits dest!: map_of_SomeD intro: rev_image_eqI)

lemma finite_bound_names: "finite (bound_names fs)"
  by (simp add: bound_names_def)

function resolve :: "frame list \<Rightarrow> name list \<Rightarrow> template \<Rightarrow> template \<times> name list" where
  "resolve fs visiting [] = ([], [])"
| "resolve fs visiting (Lit s # t) =
     (case resolve fs visiting t of (r, u) \<Rightarrow> (Lit s # r, u))"
| "resolve fs visiting (Ref n # t) =
     (case resolve fs visiting t of
        (r, u) \<Rightarrow>
          if n \<in> set visiting then (Ref n # r, n # u)
          else
            (case chain_lookup fs n of
               None \<Rightarrow> (Ref n # r, n # u)
             | Some b \<Rightarrow>
                 (case resolve fs (n # visiting) b of (r', u') \<Rightarrow> (r' @ r, u' @ u))))"
  by pat_completeness auto
termination
proof (relation "measures [\<lambda>(fs, visiting, t). card (bound_names fs - set visiting),
                           \<lambda>(fs, visiting, t). length t]", goal_cases)
  case 1
  show ?case by simp
next
  case 2
  show ?case by simp
next
  case 3
  show ?case by simp
next
  case 4
  then show ?case
    by (auto intro!: psubset_card_mono simp: finite_bound_names dest: chain_lookup_bound)
qed

definition str_isinstance :: "pyval \<Rightarrow> wrapped \<Rightarrow> bool" where
  "str_isinstance v k = (case v of Str t sc \<Rightarrow> True | _ \<Rightarrow> False)"

definition str_instantiate :: "wrapped \<Rightarrow> pyval \<Rightarrow> error + pyval" where
  "str_instantiate k v =
     (case v of RawUnit \<Rightarrow> Inl CoercionError | Raw t \<Rightarrow> Inr (Str t []) | Str t sc \<Rightarrow> Inr (Str t sc))"

definition str_in_scope :: "pyval \<Rightarrow> frame list \<Rightarrow> pyval" where
  "str_in_scope v fs = (case v of Str t sc \<Rightarrow> Str t (sc @ fs) | _ \<Rightarrow> v)"

definition str_interpolate :: "pyval \<Rightarrow> pyval \<times> name list" where
  "str_interpolate v =
     (case v of
        Str t sc \<Rightarrow> (case resolve sc [] t of (r, u) \<Rightarrow> (Str r [], u))
      | _ \<Rightarrow> (v, []))"

definition str_get :: "pyval \<Rightarrow> pyval" where
  "str_get v = (case v of Str t sc \<Rightarrow> Raw t | _ \<Rightarrow> v)"

definition str_text :: "pyval \<Rightarrow> template" where
  "str_text v = (case v of Str t sc \<Rightarrow> t | Raw t \<Rightarrow> t | RawUnit \<Rightarrow> [])"

definition str_eq :: "pyval \<Rightarrow> pyval \<Rightarrow> bool" where
  "str_eq v w \<longleftrightarrow> str_text (fst (str_interpolate v)) = str_text (fst (str_interpolate w))"

definition str_Environment :: "(name \<times> pyval) list \<Rightarrow> frame" where
  "str_Environment d = map (\<lambda>(n, v). (n, str_text v)) d"

definition str_ops :: "(pyval, wrapped, frame) collab" where
  "str_ops =
     \<lparr>isinstance = str_isinstance, instantiate = str_instantiate, in_scope = str_in_scope,
      obj_check = (\<lambda>v. Success), obj_interpolate = str_interpolate, obj_get = str_get,
      obj_eq = str_eq, Environment = str_Environment, empty_tuple = RawUnit\<rparr>"

text \<open>The registry of this universe knows the one wrapped type, by its name.\<close>

definition str_registry :: "(wrapped, string, unit) registry" where
  "str_registry =
     \<lparr>serialize_type = (\<lambda>k. ''String''),
      TypeFactory_new = (\<lambda>type_dict d. if d = ''String'' then Inr StringT else Inl (KeyError d))\<rparr>"

text \<open>
  A path reference is a list of segments; a string is not path-addressable.
\<close>

datatype segment = Dereference name | Index name

fun segment_value :: "segment list \<Rightarrow> name" where
  "segment_value [] = []"
| "segment_value (Dereference n # r) = n"
| "segment_value (Index n # r) = n"

fun segment_is_dereference :: "segment list \<Rightarrow> bool" where
  "segment_is_dereference (Dereference n # r) = True"
| "segment_is_dereference _ = False"

definition str_naming :: "(pyval, segment list) naming" where
  "str_naming =
     \<lparr>is_dereference = segment_is_dereference, action_value = segment_value, rest = tl,
      is_empty = (\<lambda>r. r = []), is_namable = (\<lambda>v. False), obj_find = (\<lambda>v r. Inl Unnamable)\<rparr>"

section \<open>Vocabulary of the statements, and example values\<close>

text \<open>
  The names an override supplies: the keys of the positional maps and of the keyword
  map.
\<close>

definition override_names :: "'a posarg list \<Rightarrow> (name \<times> 'a slot) list \<Rightarrow> name list" where
  "override_names args kw =
     concat (map (\<lambda>arg. case arg of Mapping m \<Rightarrow> map fst m | NotMapping x \<Rightarrow> []) args) @
     map fst kw"

text \<open>
  \<^verbatim>\<open>class Employee(Struct): first = Required(String); last = String\<close>, and two
  field mappings of that type.
\<close>

definition Employee :: "(pyval, wrapped) struct_cls" where
  "Employee =
     \<lparr>cls_name = ''Employee'',
      TYPEMAP = [(''first'', \<lparr>klazz = StringT, required = True, default = Empty\<rparr>),
                 (''last'', \<lparr>klazz = StringT, required = False, default = Empty\<rparr>)]\<rparr>"

definition brian :: "(name \<times> pyval slot) list" where
  "brian = [(''first'', Val (Str [Lit ''brian''] [])), (''last'', Empty)]"

definition brian_wickman :: "(name \<times> pyval slot) list" where
  "brian_wickman =
     [(''first'', Val (Str [Lit ''brian''] [])), (''last'', Val (Str [Lit ''wickman''] []))]"

text \<open>
  The overrides of a construction in the order \<^verbatim>\<open>apply\<close> processes them: the entries
  of the positional maps, left to right, then those of the keyword map.
\<close>

definition flat_overrides :: "'a posarg list \<Rightarrow> (name \<times> 'a slot) list \<Rightarrow> (name \<times> 'a slot) list" where
  "flat_overrides args kw =
     concat (map (\<lambda>arg. case arg of Mapping m \<Rightarrow> m | NotMapping x \<Rightarrow> []) args) @ kw"

text \<open>
  An override map is accepted when \<^verbatim>\<open>_update_schema_data\<close> returns on it: none of
  its names is that of a parameter of \<^verbatim>\<open>_update_schema_data\<close>, and
  \<^verbatim>\<open>_process_schema_attribute\<close> returns for each of its entries; a positional
  argument is accepted when it is such a map.
\<close>

definition accepted ::
  "('a, 'k, 'f) collab \<Rightarrow> ('a, 'k) struct_cls \<Rightarrow> (name \<times> 'a slot) list \<Rightarrow> bool" where
  "accepted ops cls m \<longleftrightarrow>
     \<not> clashes [''cls'', ''value''] m \<and>
     list_all (\<lambda>(attr, v). \<not> isl (process_schema_attribute ops cls attr v)) m"

text \<open>
  The names of the parameters that the constructor, \<^verbatim>\<open>apply\<close>, \<^verbatim>\<open>__call__\<close> and
  \<^verbatim>\<open>_update_schema_data\<close> bind by position: no override can be passed under one
  of them.
\<close>

definition parameter_names :: "name list" where
  "parameter_names = [''self'', ''cls'', ''value'']"

fun accepted_arg :: "('a, 'k, 'f) collab \<Rightarrow> ('a, 'k) struct_cls \<Rightarrow> 'a posarg \<Rightarrow> bool" where
  "accepted_arg ops cls (Mapping m) = accepted ops cls m"
| "accepted_arg ops cls (NotMapping x) = False"

text \<open>
  Every value of the map that its field's class has to coerce is coerced without an
  exception.
\<close>

definition coercible ::
  "('a, 'k, 'f) collab \<Rightarrow> ('a, 'k) struct_cls \<Rightarrow> (name \<times> 'a slot) list \<Rightarrow> bool" where
  "coercible ops cls kw \<longleftrightarrow>
     list_all (\<lambda>(attr, v).
        case (map_of (TYPEMAP cls) attr, v) of
          (Some schema_type, Val x) \<Rightarrow>
             isinstance ops x (klazz schema_type) \<or>
             \<not> isl (instantiate ops (klazz schema_type) x)
        | _ \<Rightarrow> True) kw"

definition brian_ref :: "(pyval, wrapped, frame) structural_ref" where
  "brian_ref = \<lparr>r_class = Employee, r_value = 0, r_scopes = []\<rparr>"

text \<open>
  \<^verbatim>\<open>class Box(Struct): value = String\<close>, a schema with a field named \<^verbatim>\<open>value\<close>;
  the field mapping of \<^verbatim>\<open>Box()\<close>, that value by reference and by state; a parsed
  JSON object with the key \<^verbatim>\<open>value\<close> and a parser that returns it for the text
  \<^verbatim>\<open>box\<close>.
\<close>

definition Box :: "(pyval, wrapped) struct_cls" where
  "Box =
     \<lparr>cls_name = ''Box'',
      TYPEMAP = [(''value'', \<lparr>klazz = StringT, required = False, default = Empty\<rparr>)]\<rparr>"

definition box0 :: "(name \<times> pyval slot) list" where
  "box0 = [(''value'', Empty)]"

definition box_ref :: "(pyval, wrapped, frame) structural_ref" where
  "box_ref = \<lparr>r_class = Box, r_value = 0, r_scopes = []\<rparr>"

definition box_obj :: "(pyval, wrapped, frame) structural" where
  "box_obj = \<lparr>s_class = Box, s_value = box0, s_scopes = []\<rparr>"

definition box_doc :: "(name \<times> pyval slot) list" where
  "box_doc = [(''value'', Val (Raw [Lit ''x'']))]"

definition box_parser :: "string \<Rightarrow> error + pyval posarg" where
  "box_parser s = (if s = ''box'' then Inr (Mapping box_doc) else Inl ValueError)"

text \<open>
  A field passes \<^verbatim>\<open>check\<close>: it is \<^verbatim>\<open>Empty\<close> and not required, or it is present and
  its own check, in the scope chain of the composite, succeeds.
\<close>

definition field_ok ::
  "('a, 'k, 'f) collab \<Rightarrow> ('a, 'k, 'f) structural \<Rightarrow> name \<times> ('a, 'k) TypeSignature \<Rightarrow> bool" where
  "field_ok ops self item =
     (case map_of (s_value self) (fst item) of
        None \<Rightarrow> False
      | Some Empty \<Rightarrow> \<not> required (snd item)
      | Some (Val x) \<Rightarrow> ok (obj_check ops (in_scope ops x (Structural_scopes ops self))))"

text \<open>
  \<^verbatim>\<open>class Contact(Struct): phone = String; email = Required(String)\<close>, a value of
  it and a value of \<^verbatim>\<open>Employee\<close> with no field set.
\<close>

definition Contact :: "(pyval, wrapped) struct_cls" where
  "Contact =
     \<lparr>cls_name = ''Contact'',
      TYPEMAP = [(''phone'', \<lparr>klazz = StringT, required = False, default = Empty\<rparr>),
                 (''email'', \<lparr>klazz = StringT, required = True, default = Empty\<rparr>)]\<rparr>"

definition nobody :: "(pyval, wrapped, frame) structural" where
  "nobody = \<lparr>s_class = Employee, s_value = [(''first'', Empty), (''last'', Empty)], s_scopes = []\<rparr>"

definition caller :: "(pyval, wrapped, frame) structural" where
  "caller =
     \<lparr>s_class = Contact,
      s_value = [(''phone'', Val (Str [Lit ''555''] [])), (''email'', Empty)],
      s_scopes = []\<rparr>"

text \<open>
  What \<^verbatim>\<open>interpolate\<close> stores for a slot, and the names the slot leaves unbound, in a
  given scope chain.
\<close>

definition interpolate_slot :: "('a, 'k, 'f) collab \<Rightarrow> 'f list \<Rightarrow> 'a slot \<Rightarrow> 'a slot" where
  "interpolate_slot ops scopes v =
     (case v of Empty \<Rightarrow> Empty | Val x \<Rightarrow> Val (fst (obj_interpolate ops (in_scope ops x scopes))))"

definition slot_unbound :: "('a, 'k, 'f) collab \<Rightarrow> 'f list \<Rightarrow> 'a slot \<Rightarrow> name set" where
  "slot_unbound ops scopes v =
     (case v of Empty \<Rightarrow> {} | Val x \<Rightarrow> set (snd (obj_interpolate ops (in_scope ops x scopes))))"

text \<open>
  \<^verbatim>\<open>class Pair(Struct): a = String; b = String\<close> and the value
  \<^verbatim>\<open>Pair(a = "{{b}}{{z}}", b = "x")\<close>.
\<close>

definition Pair :: "(pyval, wrapped) struct_cls" where
  "Pair =
     \<lparr>cls_name = ''Pair'',
      TYPEMAP = [(''a'', \<lparr>klazz = StringT, required = False, default = Empty\<rparr>),
                 (''b'', \<lparr>klazz = StringT, required = False, default = Empty\<rparr>)]\<rparr>"

definition pair_ab :: "(pyval, wrapped, frame) structural" where
  "pair_ab =
     \<lparr>s_class = Pair,
      s_value = [(''a'', Val (Str [Ref ''b'', Ref ''z''] [])), (''b'', Val (Str [Lit ''x''] []))],
      s_scopes = []\<rparr>"

text \<open>The value \<^verbatim>\<open>Employee(first = "brian")\<close>, with no attached frame.\<close>

definition brian_obj :: "(pyval, wrapped, frame) structural" where
  "brian_obj = \<lparr>s_class = Employee, s_value = brian, s_scopes = []\<rparr>"

text \<open>
  A parsed JSON object with a key that \<^verbatim>\<open>Employee\<close> does not declare, and a parser
  that returns it for the text \<^verbatim>\<open>doc\<close>.
\<close>

definition brian_doc :: "(name \<times> pyval slot) list" where
  "brian_doc = [(''first'', Val (Raw [Lit ''brian''])), (''age'', Val (Raw [Lit ''42'']))]"

definition doc_parser :: "string \<Rightarrow> error + pyval posarg" where
  "doc_parser s = (if s = ''doc'' then Inr (Mapping brian_doc) else Inl ValueError)"




text \<open>The signatures \<^verbatim>\<open>Required(String)\<close> and \<^verbatim>\<open>Default(String, "nobody")\<close>.\<close>

definition required_name :: "(pyval, wrapped) TypeSignature" where
  "required_name = \<lparr>klazz = StringT, required = True, default = Empty\<rparr>"

definition default_name :: "(pyval, wrapped) TypeSignature" where
  "default_name = \<lparr>klazz = StringT, required = False, default = Val (Str [Lit ''nobody''] [])\<rparr>"



text \<open>
  What a primitive wrapped type provides for a signature: the registry rebuilds, from
  the descriptor of its class, a class with the same descriptor, and that class
  rebuilds from the raw form of the default an instance equal to the default.
\<close>

definition roundtrips ::
  "('k, 'd, 't) registry \<Rightarrow> ('a, 'k, 'f) collab \<Rightarrow> 't \<Rightarrow> ('a, 'k) TypeSignature \<Rightarrow> bool" where
  "roundtrips reg ops type_dict sig =
     (case TypeFactory_new reg type_dict (serialize_type reg (klazz sig)) of
        Inl e \<Rightarrow> False
      | Inr real_class \<Rightarrow>
          serialize_type reg real_class = serialize_type reg (klazz sig) \<and>
          (case default sig of
             Empty \<Rightarrow> True
           | Val x \<Rightarrow>
               (case instantiate ops real_class (obj_get ops x) of
                  Inl e \<Rightarrow> False
                | Inr y \<Rightarrow> isinstance ops y real_class \<and> obj_eq ops x y \<and> obj_eq ops y x)))"

text \<open>
  \<^verbatim>\<open>class Guest(Struct): name = Default(String, "nobody"); id = Required(String)\<close>.
\<close>

definition Guest :: "(pyval, wrapped) struct_cls" where
  "Guest = \<lparr>cls_name = ''Guest'', TYPEMAP = [(''name'', default_name), (''id'', required_name)]\<rparr>"

section \<open>Properties\<close>

subsection \<open>Dictionaries and the construction loops\<close>

lemma foldl_update_keys:
  "fst ` set (foldl (\<lambda>d (k, v). AList.update k v d) acc xs) = fst ` set acc \<union> fst ` set xs"
proof (induction xs arbitrary: acc)
  case Nil
  then show ?case by simp
next
  case (Cons p xs)
  obtain k v where p: "p = (k, v)" by (cases p)
  show ?case unfolding p by (simp add: Cons.IH dom_update)
qed

lemma foldl_update_distinct:
  "distinct (map fst acc) \<Longrightarrow> distinct (map fst (foldl (\<lambda>d (k, v). AList.update k v d) acc xs))"
  by (induction xs arbitrary: acc) (auto simp: distinct_update)

lemma dict_keys: "fst ` set (dict xs) = fst ` set xs"
  by (simp add: dict_def foldl_update_keys)

lemma dict_distinct: "distinct (map fst (dict xs))"
  by (simp add: dict_def foldl_update_distinct)

lemma update_fresh: "k \<notin> fst ` set al \<Longrightarrow> AList.update k v al = al @ [(k, v)]"
  by (induction al) auto

lemma foldl_update_fresh:
  "distinct (map fst (acc @ xs)) \<Longrightarrow>
   foldl (\<lambda>d (k, v). AList.update k v d) acc xs = acc @ xs"
proof (induction xs arbitrary: acc)
  case Nil
  then show ?case by simp
next
  case (Cons p xs)
  obtain k v where p: "p = (k, v)" by (cases p)
  from Cons.prems p have fresh: "k \<notin> fst ` set acc" by auto
  from Cons.prems p have "distinct (map fst ((acc @ [(k, v)]) @ xs))" by auto
  from Cons.IH [OF this] show ?case by (simp add: p update_fresh [OF fresh])
qed

lemma dict_id: "distinct (map fst xs) \<Longrightarrow> dict xs = xs"
  using foldl_update_fresh [of "[]" xs] by (simp add: dict_def)

lemma process_schema_attribute_known:
  "process_schema_attribute ops cls attr v = Inr x \<Longrightarrow> attr \<in> fst ` set (TYPEMAP cls)"
  by (cases "map_of (TYPEMAP cls) attr")
     (auto simp: process_schema_attribute_def dest!: map_of_SomeD intro: rev_image_eqI)

lemma update_schema_items_keys:
  "update_schema_items ops cls d kw = (r, d') \<Longrightarrow>
   fst ` set d \<subseteq> fst ` set d' \<and> fst ` set d' \<subseteq> fst ` set d \<union> fst ` set (TYPEMAP cls)"
proof (induction kw arbitrary: d)
  case Nil
  then show ?case by simp
next
  case (Cons p kw)
  obtain attr v where p: "p = (attr, v)" by (cases p)
  show ?case
  proof (cases "process_schema_attribute ops cls attr v")
    case (Inl e)
    with Cons.prems p show ?thesis by simp
  next
    case (Inr x)
    with Cons.prems p have "update_schema_items ops cls (AList.update attr x d) kw = (r, d')"
      by simp
    from Cons.IH [OF this] process_schema_attribute_known [OF Inr]
    show ?thesis by (auto simp: dom_update)
  qed
qed

lemma update_schema_items_distinct:
  "update_schema_items ops cls d kw = (r, d') \<Longrightarrow> distinct (map fst d) \<Longrightarrow> distinct (map fst d')"
  by (induction kw arbitrary: d) (auto simp: distinct_update split: sum.splits)

lemma update_schema_items_other:
  "update_schema_items ops cls d kw = (r, d') \<Longrightarrow> attr \<notin> fst ` set kw \<Longrightarrow>
   map_of d' attr = map_of d attr"
  by (induction kw arbitrary: d) (auto simp: update_conv' split: sum.splits)

lemma clashes_iff: "clashes params kw \<longleftrightarrow> (\<exists>attr \<in> fst ` set kw. attr \<in> set params)"
  by (induction kw) (auto simp: clashes_def)

lemma clashes_append: "clashes params (xs @ ys) \<longleftrightarrow> clashes params xs \<or> clashes params ys"
  by (auto simp: clashes_def)

lemma clashes_mono: "set ps \<subseteq> set qs \<Longrightarrow> clashes ps kw \<Longrightarrow> clashes qs kw"
  by (auto simp: clashes_iff)

lemma parameter_names_clash:
  "\<not> clashes parameter_names kw \<Longrightarrow>
   \<not> clashes [''self''] kw \<and> \<not> clashes [''cls''] kw \<and> \<not> clashes [''cls'', ''value''] kw"
  by (auto simp: clashes_iff parameter_names_def)

lemma update_schema_data_keys:
  "update_schema_data ops cls d kw = (r, d') \<Longrightarrow>
   fst ` set d \<subseteq> fst ` set d' \<and> fst ` set d' \<subseteq> fst ` set d \<union> fst ` set (TYPEMAP cls)"
proof (cases "clashes [''cls'', ''value''] kw")
  case True
  moreover assume "update_schema_data ops cls d kw = (r, d')"
  ultimately have "d' = d" by (simp add: update_schema_data_def)
  then show ?thesis by simp
next
  case False
  moreover assume "update_schema_data ops cls d kw = (r, d')"
  ultimately have "update_schema_items ops cls d kw = (r, d')"
    by (simp add: update_schema_data_def)
  then show ?thesis by (rule update_schema_items_keys)
qed

lemma update_schema_data_distinct:
  "update_schema_data ops cls d kw = (r, d') \<Longrightarrow> distinct (map fst d) \<Longrightarrow> distinct (map fst d')"
  by (cases "clashes [''cls'', ''value''] kw")
     (auto simp: update_schema_data_def dest: update_schema_items_distinct)

lemma update_schema_data_other:
  "update_schema_data ops cls d kw = (r, d') \<Longrightarrow> attr \<notin> fst ` set kw \<Longrightarrow>
   map_of d' attr = map_of d attr"
  by (cases "clashes [''cls'', ''value''] kw")
     (auto simp: update_schema_data_def dest: update_schema_items_other)

lemma keys_closed: "A \<subseteq> B \<and> B \<subseteq> A \<union> T \<Longrightarrow> A = T \<Longrightarrow> B = T"
  by blast

lemma keys_trans:
  "A \<subseteq> B \<and> B \<subseteq> A \<union> T \<Longrightarrow> B \<subseteq> C \<and> C \<subseteq> B \<union> T \<Longrightarrow> A \<subseteq> C \<and> C \<subseteq> A \<union> T"
  by blast

lemma apply_args_Mapping:
  "apply_args ops cls d (Mapping m # args) = Inr d' \<Longrightarrow>
   \<exists>d1. update_schema_data ops cls d m = (None, d1) \<and> apply_args ops cls d1 args = Inr d'"
  by (auto split: prod.splits option.splits)

lemma apply_args_keys:
  "apply_args ops cls d args = Inr d' \<Longrightarrow>
   fst ` set d \<subseteq> fst ` set d' \<and> fst ` set d' \<subseteq> fst ` set d \<union> fst ` set (TYPEMAP cls)"
proof (induction args arbitrary: d)
  case Nil
  then show ?case by simp
next
  case (Cons arg args)
  show ?case
  proof (cases arg)
    case (Mapping m)
    with Cons.prems obtain d1 where u: "update_schema_data ops cls d m = (None, d1)"
      and a: "apply_args ops cls d1 args = Inr d'"
      using apply_args_Mapping by blast
    from update_schema_data_keys [OF u] Cons.IH [OF a]
    show ?thesis by (rule keys_trans)
  next
    case (NotMapping x)
    with Cons.prems show ?thesis by simp
  qed
qed

lemma apply_args_other:
  "apply_args ops cls d args = Inr d' \<Longrightarrow> attr \<notin> set (override_names args []) \<Longrightarrow>
   map_of d' attr = map_of d attr"
proof (induction args arbitrary: d)
  case Nil
  then show ?case by simp
next
  case (Cons arg args)
  show ?case
  proof (cases arg)
    case (Mapping m)
    with Cons.prems obtain d1 where u: "update_schema_data ops cls d m = (None, d1)"
      and a: "apply_args ops cls d1 args = Inr d'"
      using apply_args_Mapping by blast
    from Cons.prems Mapping have n1: "attr \<notin> fst ` set m"
      and n2: "attr \<notin> set (override_names args [])"
      by (auto simp: override_names_def)
    from Cons.IH [OF a n2] update_schema_data_other [OF u n1]
    show ?thesis by simp
  next
    case (NotMapping x)
    with Cons.prems show ?thesis by simp
  qed
qed

lemma Structural_apply_keys:
  assumes "Structural_apply ops cls args kw = Inr d"
  shows "fst ` set d = fst ` set (TYPEMAP cls)"
proof -
  let ?d0 = "frozendict (map (\<lambda>(attr, v). (attr, default v)) (TYPEMAP cls))"
  have k0: "fst ` set ?d0 = fst ` set (TYPEMAP cls)"
    by (simp add: frozendict_def dict_keys image_image case_prod_beta)
  from assms obtain d1 where a: "apply_args ops cls ?d0 args = Inr d1"
    and u: "update_schema_data ops cls d1 kw = (None, d)"
    by (auto simp: Structural_apply_def split: sum.splits prod.splits option.splits if_splits)
  from keys_trans [OF apply_args_keys [OF a] update_schema_data_keys [OF u]] k0
  show ?thesis by (rule keys_closed)
qed

lemma apply_args_distinct:
  "apply_args ops cls d args = Inr d' \<Longrightarrow> distinct (map fst d) \<Longrightarrow> distinct (map fst d')"
proof (induction args arbitrary: d)
  case Nil
  then show ?case by simp
next
  case (Cons arg args)
  show ?case
  proof (cases arg)
    case (Mapping m)
    with Cons.prems obtain d1 where u: "update_schema_data ops cls d m = (None, d1)"
      and a: "apply_args ops cls d1 args = Inr d'"
      using apply_args_Mapping by blast
    from update_schema_data_distinct [OF u Cons.prems(2)] have "distinct (map fst d1)" .
    with a show ?thesis by (rule Cons.IH)
  next
    case (NotMapping x)
    with Cons.prems show ?thesis by simp
  qed
qed

lemma Structural_apply_distinct:
  assumes "Structural_apply ops cls args kw = Inr d"
  shows "distinct (map fst d)"
proof -
  let ?d0 = "frozendict (map (\<lambda>(attr, v). (attr, default v)) (TYPEMAP cls))"
  from assms obtain d1 where a: "apply_args ops cls ?d0 args = Inr d1"
    and u: "update_schema_data ops cls d1 kw = (None, d)"
    by (auto simp: Structural_apply_def split: sum.splits prod.splits option.splits if_splits)
  have "distinct (map fst ?d0)" by (simp add: frozendict_def dict_distinct)
  with a have "distinct (map fst d1)" by (rule apply_args_distinct)
  with u show ?thesis by (rule update_schema_data_distinct)
qed

lemma Structural_apply_unsupplied:
  assumes "Structural_apply ops cls args kw = Inr d"
    and "distinct (map fst (TYPEMAP cls))"
    and "map_of (TYPEMAP cls) attr = Some sig"
    and "attr \<notin> set (override_names args kw)"
  shows "map_of d attr = Some (default sig)"
proof -
  let ?items = "map (\<lambda>(attr, v). (attr, default v)) (TYPEMAP cls)"
  have "distinct (map fst ?items)"
    using assms(2) by (simp add: case_prod_beta comp_def)
  then have d0: "frozendict ?items = ?items"
    by (simp only: frozendict_def dict_id)
  have m0: "map_of ?items attr = Some (default sig)"
    using assms(3) by (simp add: map_of_map)
  from assms(1) obtain d1 where a: "apply_args ops cls (frozendict ?items) args = Inr d1"
    and u: "update_schema_data ops cls d1 kw = (None, d)"
    by (auto simp: Structural_apply_def split: sum.splits prod.splits option.splits if_splits)
  from assms(4) have n1: "attr \<notin> set (override_names args [])" and n2: "attr \<notin> fst ` set kw"
    by (auto simp: override_names_def)
  from apply_args_other [OF a n1] update_schema_data_other [OF u n2] d0 m0
  show ?thesis by simp
qed

lemma Structural_call_result:
  "Structural_call ops h self kw = (h', Inr new_self) \<Longrightarrow>
   \<exists>d. update_schema_data ops (r_class self) (h ! r_value self) kw = (None, d) \<and>
     h' = h @ [d] \<and> new_self = self\<lparr>r_value := length h\<rparr>"
  by (auto simp: Structural_call_def Structural_copy_def
      split: prod.splits option.splits if_splits)

text \<open>
  C3.  Every field mapping that \<^verbatim>\<open>apply\<close> returns, whatever the positional and
  keyword override maps, has exactly the field names of the schema as its keys, each
  once, and a field that no override names and that has no default is bound to \<^verbatim>\<open>Empty\<close>; a
  functional update of a value whose keys are the schema's names yields a value
  whose keys are again exactly the schema's names.
\<close>

theorem C3_schema_closure:
  "distinct (map fst (TYPEMAP cls)) \<Longrightarrow>
   (Structural_apply ops cls args kw = Inr d \<longrightarrow>
      fst ` set d = fst ` set (TYPEMAP cls) \<and> distinct (map fst d) \<and>
      (\<forall>attr sig. map_of (TYPEMAP cls) attr = Some sig \<and> default sig = Empty \<and>
                  attr \<notin> set (override_names args kw) \<longrightarrow> map_of d attr = Some Empty)) \<and>
   (fst ` set (h ! r_value self) = fst ` set (TYPEMAP (r_class self)) \<and>
    Structural_call ops h self kw' = (h', Inr new_self) \<longrightarrow>
      fst ` set (h' ! r_value new_self) = fst ` set (TYPEMAP (r_class new_self)))"
proof (intro conjI impI allI)
  assume "Structural_apply ops cls args kw = Inr d"
  then show "fst ` set d = fst ` set (TYPEMAP cls)" by (rule Structural_apply_keys)
next
  assume "Structural_apply ops cls args kw = Inr d"
  then show "distinct (map fst d)" by (rule Structural_apply_distinct)
next
  fix attr sig
  assume "distinct (map fst (TYPEMAP cls))" "Structural_apply ops cls args kw = Inr d"
    "map_of (TYPEMAP cls) attr = Some sig \<and> default sig = Empty \<and>
     attr \<notin> set (override_names args kw)"
  then show "map_of d attr = Some Empty"
    using Structural_apply_unsupplied [of ops cls args kw d attr sig] by simp
next
  assume a: "fst ` set (h ! r_value self) = fst ` set (TYPEMAP (r_class self)) \<and>
    Structural_call ops h self kw' = (h', Inr new_self)"
  then obtain d where u: "update_schema_data ops (r_class self) (h ! r_value self) kw' = (None, d)"
    and h': "h' = h @ [d]"
    and n: "new_self = self\<lparr>r_value := length h\<rparr>"
    using Structural_call_result [of ops h self kw' h' new_self] by auto
  from a have "fst ` set (h ! r_value self) = fst ` set (TYPEMAP (r_class self))" ..
  with update_schema_data_keys [OF u] have "fst ` set d = fst ` set (TYPEMAP (r_class self))"
    by (rule keys_closed)
  then show "fst ` set (h' ! r_value new_self) = fst ` set (TYPEMAP (r_class new_self))"
    by (simp add: h' n)
qed

lemma brian_apply:
  "Structural_apply str_ops Employee [] [(''first'', Val (Raw [Lit ''brian'']))] = Inr brian"
  by (simp add: Structural_apply_def Employee_def frozendict_def dict_def str_ops_def brian_def
      process_schema_attribute_def update_schema_data_def
      clashes_def str_isinstance_def str_instantiate_def)

lemma brian_call:
  "Structural_call str_ops [brian] \<lparr>r_class = Employee, r_value = 0, r_scopes = []\<rparr>
      [(''last'', Val (Raw [Lit ''wickman'']))] =
   ([brian, brian_wickman], Inr \<lparr>r_class = Employee, r_value = 1, r_scopes = []\<rparr>)"
  by (simp add: Structural_call_def Structural_copy_def Employee_def str_ops_def brian_def
      brian_wickman_def process_schema_attribute_def update_schema_data_def
      clashes_def str_isinstance_def str_instantiate_def)

theorem C3_schema_closure_witness:
  "distinct (map fst (TYPEMAP Employee)) \<and>
   Structural_apply str_ops Employee [] [(''first'', Val (Raw [Lit ''brian'']))] = Inr brian \<and>
   fst ` set brian = fst ` set (TYPEMAP Employee) \<and>
   map_of (TYPEMAP Employee) ''last'' =
     Some \<lparr>klazz = StringT, required = False, default = Empty\<rparr> \<and>
   ''last'' \<notin> set (override_names ([] :: pyval posarg list)
                     [(''first'', Val (Raw [Lit ''brian'']))]) \<and>
   map_of brian ''last'' = Some Empty \<and>
   Structural_call str_ops [brian] \<lparr>r_class = Employee, r_value = 0, r_scopes = []\<rparr>
      [(''last'', Val (Raw [Lit ''wickman'']))] =
     ([brian, brian_wickman], Inr \<lparr>r_class = Employee, r_value = 1, r_scopes = []\<rparr>) \<and>
   fst ` set ([brian, brian_wickman] ! 1) = fst ` set (TYPEMAP Employee)"
  using C3_schema_closure [of Employee str_ops "[]" "[(''first'', Val (Raw [Lit ''brian'']))]"
      brian "[brian]" "\<lparr>r_class = Employee, r_value = 0, r_scopes = []\<rparr>"
      "[(''last'', Val (Raw [Lit ''wickman'']))]" "[brian, brian_wickman]"
      "\<lparr>r_class = Employee, r_value = 1, r_scopes = []\<rparr>"]
    brian_apply brian_call
  by (simp add: Employee_def override_names_def brian_def brian_wickman_def)

subsection \<open>Construction errors and functional update\<close>

lemma override_names_flat: "override_names args kw = map fst (flat_overrides args kw)"
  by (induction args) (auto simp: override_names_def flat_overrides_def split: posarg.splits)

lemma process_unknown:
  "map_of (TYPEMAP cls) attr = None \<Longrightarrow>
   process_schema_attribute ops cls attr v = Inl (AttributeError (''Unknown schema attribute '' @ attr))"
  by (simp add: process_schema_attribute_def)

lemma update_schema_items_accepted:
  "list_all (\<lambda>(attr, v). \<not> isl (process_schema_attribute ops cls attr v)) m \<Longrightarrow>
   \<exists>d'. update_schema_items ops cls d m = (None, d')"
  by (induction m arbitrary: d) (auto split: sum.splits)

lemma update_schema_data_accepted:
  "accepted ops cls m \<Longrightarrow> \<exists>d'. update_schema_data ops cls d m = (None, d')"
  using update_schema_items_accepted [of ops cls m d]
  by (simp add: accepted_def update_schema_data_def)

lemma update_schema_items_None:
  "update_schema_items ops cls d m = (None, d') \<Longrightarrow>
   list_all (\<lambda>(attr, v). \<not> isl (process_schema_attribute ops cls attr v)) m"
  by (induction m arbitrary: d) (auto split: sum.splits)

lemma update_schema_data_None:
  "update_schema_data ops cls d m = (None, d') \<Longrightarrow>
   \<not> clashes [''cls'', ''value''] m \<and> update_schema_items ops cls d m = (None, d')"
  by (cases "clashes [''cls'', ''value''] m") (simp_all add: update_schema_data_def)

lemma update_schema_data_None_accepted:
  "update_schema_data ops cls d m = (None, d') \<Longrightarrow> accepted ops cls m"
  using update_schema_data_None [of ops cls d m d'] update_schema_items_None [of ops cls d m d']
  by (simp add: accepted_def)

lemma update_schema_items_first_failure:
  "list_all (\<lambda>(attr, v). \<not> isl (process_schema_attribute ops cls attr v)) pre \<Longrightarrow>
   process_schema_attribute ops cls attr v = Inl e \<Longrightarrow>
   fst (update_schema_items ops cls d (pre @ (attr, v) # post)) = Some e"
  by (induction pre arbitrary: d) (auto split: sum.splits)

lemma update_schema_data_first_failure:
  "accepted ops cls pre \<Longrightarrow> \<not> clashes [''cls'', ''value''] ((attr, v) # post) \<Longrightarrow>
   process_schema_attribute ops cls attr v = Inl e \<Longrightarrow>
   fst (update_schema_data ops cls d (pre @ (attr, v) # post)) = Some e"
  by (simp add: update_schema_data_def accepted_def clashes_append
      update_schema_items_first_failure)

lemma update_schema_items_unknown:
  "attr \<in> fst ` set m \<Longrightarrow> map_of (TYPEMAP cls) attr = None \<Longrightarrow>
   \<exists>e. fst (update_schema_items ops cls d m) = Some e"
proof (induction m arbitrary: d)
  case Nil
  then show ?case by simp
next
  case (Cons p m)
  obtain a w where p: "p = (a, w)" by (cases p)
  show ?case
  proof (cases "process_schema_attribute ops cls a w")
    case (Inl e)
    then show ?thesis by (simp add: p)
  next
    case (Inr x)
    with Cons.prems p have "attr \<in> fst ` set m"
      by (auto simp: process_unknown)
    from Cons.IH [OF this Cons.prems(2)] Inr show ?thesis by (simp add: p)
  qed
qed

lemma update_schema_data_unknown:
  "attr \<in> fst ` set m \<Longrightarrow> map_of (TYPEMAP cls) attr = None \<Longrightarrow>
   \<exists>e. fst (update_schema_data ops cls d m) = Some e"
  by (simp add: update_schema_data_def update_schema_items_unknown)

lemma update_schema_items_applied:
  "update_schema_items ops cls d kw = (None, d') \<Longrightarrow> map_of (rev kw) attr = Some v \<Longrightarrow>
   \<exists>x. process_schema_attribute ops cls attr v = Inr x \<and> map_of d' attr = Some x"
proof (induction kw arbitrary: d)
  case Nil
  then show ?case by simp
next
  case (Cons p kw)
  obtain a w where p: "p = (a, w)" by (cases p)
  from Cons.prems(1) p obtain y where y: "process_schema_attribute ops cls a w = Inr y"
    and u: "update_schema_items ops cls (AList.update a y d) kw = (None, d')"
    by (auto split: sum.splits)
  show ?case
  proof (cases "map_of (rev kw) attr")
    case None
    with Cons.prems(2) p have eq: "a = attr" "w = v"
      by (auto simp: map_add_def split: if_splits)
    from None have "attr \<notin> fst ` set kw"
      by (metis map_of_eq_None_iff set_rev)
    from update_schema_items_other [OF u this] y eq show ?thesis
      by (simp add: update_conv')
  next
    case (Some v')
    with Cons.prems(2) p have "map_of (rev kw) attr = Some v"
      by (simp add: map_add_def)
    from Cons.IH [OF u this] show ?thesis .
  qed
qed

lemma update_schema_data_applied:
  assumes "update_schema_data ops cls d kw = (None, d')" and "map_of (rev kw) attr = Some v"
  shows "\<exists>x. process_schema_attribute ops cls attr v = Inr x \<and> map_of d' attr = Some x"
proof -
  from update_schema_data_None [OF assms(1)]
  have "update_schema_items ops cls d kw = (None, d')" ..
  then show ?thesis using assms(2) by (rule update_schema_items_applied)
qed


lemma accepted_known:
  "accepted ops cls m \<Longrightarrow> attr \<in> fst ` set m \<Longrightarrow> map_of (TYPEMAP cls) attr \<noteq> None"
proof
  assume acc: "accepted ops cls m" and mem: "attr \<in> fst ` set m"
    and none: "map_of (TYPEMAP cls) attr = None"
  from mem obtain v where "(attr, v) \<in> set m" by auto
  with acc have "\<not> isl (process_schema_attribute ops cls attr v)"
    by (auto simp: accepted_def list_all_iff)
  with process_unknown [OF none, of ops v] show False by simp
qed

lemma apply_args_accepted:
  "list_all (accepted_arg ops cls) args \<Longrightarrow> \<exists>d'. apply_args ops cls d args = Inr d'"
proof (induction args arbitrary: d)
  case Nil
  then show ?case by simp
next
  case (Cons arg args)
  then obtain m where m: "arg = Mapping m" and acc: "accepted ops cls m"
    by (cases arg) auto
  from update_schema_data_accepted [OF acc] obtain d1
    where "update_schema_data ops cls d m = (None, d1)" by blast
  with Cons m show ?case by simp
qed

lemma apply_args_Inr_accepted:
  "apply_args ops cls d args = Inr d' \<Longrightarrow> list_all (accepted_arg ops cls) args"
proof (induction args arbitrary: d)
  case Nil
  then show ?case by simp
next
  case (Cons arg args)
  show ?case
  proof (cases arg)
    case (Mapping m)
    with Cons.prems obtain d1 where u: "update_schema_data ops cls d m = (None, d1)"
      and a: "apply_args ops cls d1 args = Inr d'"
      using apply_args_Mapping by blast
    from update_schema_data_None_accepted [OF u] Cons.IH [OF a] Mapping
    show ?thesis by simp
  next
    case (NotMapping x)
    with Cons.prems show ?thesis by simp
  qed
qed

lemma apply_args_append:
  "apply_args ops cls d args = Inr d' \<Longrightarrow>
   apply_args ops cls d (args @ args2) = apply_args ops cls d' args2"
proof (induction args arbitrary: d)
  case Nil
  then show ?case by simp
next
  case (Cons arg args)
  show ?case
  proof (cases arg)
    case (Mapping m)
    with Cons.prems obtain d1 where u: "update_schema_data ops cls d m = (None, d1)"
      and a: "apply_args ops cls d1 args = Inr d'"
      using apply_args_Mapping by blast
    from Cons.IH [OF a] u Mapping show ?thesis by simp
  next
    case (NotMapping x)
    with Cons.prems show ?thesis by simp
  qed
qed

lemma apply_args_applied:
  "apply_args ops cls d args = Inr d' \<Longrightarrow>
   map_of (rev (flat_overrides args [])) attr = Some v \<Longrightarrow>
   \<exists>x. process_schema_attribute ops cls attr v = Inr x \<and> map_of d' attr = Some x"
proof (induction args arbitrary: d)
  case Nil
  then show ?case by (simp add: flat_overrides_def)
next
  case (Cons arg args)
  show ?case
  proof (cases arg)
    case (Mapping m)
    with Cons.prems obtain d1 where u: "update_schema_data ops cls d m = (None, d1)"
      and a: "apply_args ops cls d1 args = Inr d'"
      using apply_args_Mapping by blast
    have fl: "flat_overrides (arg # args) [] = m @ flat_overrides args []"
      by (simp add: flat_overrides_def Mapping)
    show ?thesis
    proof (cases "map_of (rev (flat_overrides args [])) attr")
      case None
      with Cons.prems(2) have mv: "map_of (rev m) attr = Some v"
        by (simp add: fl map_add_def)
      from None have "attr \<notin> set (override_names args [])"
        by (metis image_set map_of_eq_None_iff override_names_flat set_rev)
      from apply_args_other [OF a this] update_schema_data_applied [OF u mv]
      show ?thesis by simp
    next
      case (Some v')
      with Cons.prems(2) have "map_of (rev (flat_overrides args [])) attr = Some v"
        by (simp add: fl map_add_def)
      from Cons.IH [OF a this] show ?thesis .
    qed
  next
    case (NotMapping x)
    with Cons.prems show ?thesis by simp
  qed
qed

lemma Structural_apply_Inr:
  "Structural_apply ops cls args kw = Inr d \<Longrightarrow>
   \<exists>d1. apply_args ops cls
           (frozendict (map (\<lambda>(attr, v). (attr, default v)) (TYPEMAP cls))) args = Inr d1 \<and>
        update_schema_data ops cls d1 kw = (None, d)"
  by (auto simp: Structural_apply_def split: sum.splits prod.splits option.splits if_splits)

lemma Structural_apply_Inr_accepted:
  assumes "Structural_apply ops cls args kw = Inr d"
  shows "list_all (accepted_arg ops cls) args \<and> accepted ops cls kw"
proof -
  from Structural_apply_Inr [OF assms] obtain d1
    where a: "apply_args ops cls
           (frozendict (map (\<lambda>(attr, v). (attr, default v)) (TYPEMAP cls))) args = Inr d1"
      and u: "update_schema_data ops cls d1 kw = (None, d)" by blast
  from apply_args_Inr_accepted [OF a] update_schema_data_None_accepted [OF u]
  show ?thesis by simp
qed

lemma Structural_apply_applied:
  assumes "Structural_apply ops cls args kw = Inr d"
    and "map_of (rev (flat_overrides args kw)) attr = Some v"
  shows "\<exists>x. process_schema_attribute ops cls attr v = Inr x \<and> map_of d attr = Some x"
proof -
  from Structural_apply_Inr [OF assms(1)] obtain d1
    where a: "apply_args ops cls
           (frozendict (map (\<lambda>(attr, v). (attr, default v)) (TYPEMAP cls))) args = Inr d1"
      and u: "update_schema_data ops cls d1 kw = (None, d)" by blast
  have fl: "flat_overrides args kw = flat_overrides args [] @ kw"
    by (simp add: flat_overrides_def)
  show ?thesis
  proof (cases "map_of (rev kw) attr")
    case None
    with assms(2) have mv: "map_of (rev (flat_overrides args [])) attr = Some v"
      by (simp add: fl map_add_def)
    from None have "attr \<notin> fst ` set kw"
      by (metis map_of_eq_None_iff set_rev)
    from update_schema_data_other [OF u this] apply_args_applied [OF a mv]
    show ?thesis by simp
  next
    case (Some v')
    with assms(2) have "map_of (rev kw) attr = Some v"
      by (simp add: fl map_add_def)
    from update_schema_data_applied [OF u this] show ?thesis .
  qed
qed

lemma Structural_apply_fails:
  assumes "\<not> (list_all (accepted_arg ops cls) args \<and> accepted ops cls kw)"
  shows "\<exists>e. Structural_apply ops cls args kw = Inl e"
proof (cases "Structural_apply ops cls args kw")
  case (Inl e)
  then show ?thesis by blast
next
  case (Inr d)
  from Structural_apply_Inr_accepted [OF Inr] assms show ?thesis by blast
qed

lemma unknown_not_accepted:
  assumes "attr \<in> set (override_names args kw)" and "map_of (TYPEMAP cls) attr = None"
  shows "\<not> (list_all (accepted_arg ops cls) args \<and> accepted ops cls kw)"
proof
  assume acc: "list_all (accepted_arg ops cls) args \<and> accepted ops cls kw"
  from assms(1) consider (pos) m where "Mapping m \<in> set args" "attr \<in> fst ` set m"
    | (kw) "attr \<in> fst ` set kw"
    by (auto simp: override_names_def split: posarg.splits)
  then show False
  proof cases
    case pos
    with acc have "accepted ops cls m" by (auto simp: list_all_iff)
    from accepted_known [OF this pos(2)] assms(2) show False by simp
  next
    case kw
    with acc accepted_known [of ops cls kw attr] assms(2) show False by simp
  qed
qed

lemma accepted_no_clash: "accepted ops cls m \<Longrightarrow> \<not> clashes [''cls''] m"
  by (auto simp: accepted_def clashes_iff)

lemma Structural_apply_first_unknown_kw:
  assumes "list_all (accepted_arg ops cls) args" and "accepted ops cls pre"
    and "\<not> clashes [''cls'', ''value''] ((attr, v) # post)"
    and "map_of (TYPEMAP cls) attr = None"
  shows "Structural_apply ops cls args (pre @ (attr, v) # post) =
         Inl (AttributeError (''Unknown schema attribute '' @ attr))"
proof -
  let ?d0 = "frozendict (map (\<lambda>(attr, v). (attr, default v)) (TYPEMAP cls))"
  from apply_args_accepted [OF assms(1)] obtain d1
    where a: "apply_args ops cls ?d0 args = Inr d1" by blast
  from assms(2,3) have c: "\<not> clashes [''cls''] (pre @ (attr, v) # post)"
    by (auto simp: accepted_def clashes_iff)
  from update_schema_data_first_failure [OF assms(2,3) process_unknown [OF assms(4)]]
  have "fst (update_schema_data ops cls d1 (pre @ (attr, v) # post)) =
        Some (AttributeError (''Unknown schema attribute '' @ attr))" .
  with a c show ?thesis
    by (cases "update_schema_data ops cls d1 (pre @ (attr, v) # post)")
       (simp add: Structural_apply_def)
qed

lemma Structural_apply_first_unknown_positional:
  assumes "list_all (accepted_arg ops cls) args" and "accepted ops cls pre"
    and "\<not> clashes [''cls'', ''value''] ((attr, v) # post)"
    and "\<not> clashes [''cls''] kw"
    and "map_of (TYPEMAP cls) attr = None"
  shows "Structural_apply ops cls (args @ Mapping (pre @ (attr, v) # post) # args2) kw =
         Inl (AttributeError (''Unknown schema attribute '' @ attr))"
proof -
  let ?d0 = "frozendict (map (\<lambda>(attr, v). (attr, default v)) (TYPEMAP cls))"
  from apply_args_accepted [OF assms(1)] obtain d1
    where a: "apply_args ops cls ?d0 args = Inr d1" by blast
  from update_schema_data_first_failure [OF assms(2,3) process_unknown [OF assms(5)]]
  have "fst (update_schema_data ops cls d1 (pre @ (attr, v) # post)) =
        Some (AttributeError (''Unknown schema attribute '' @ attr))" .
  then have "apply_args ops cls d1 (Mapping (pre @ (attr, v) # post) # args2) =
        Inl (AttributeError (''Unknown schema attribute '' @ attr))"
    by (cases "update_schema_data ops cls d1 (pre @ (attr, v) # post)") simp
  with apply_args_append [OF a] assms(4) show ?thesis
    by (simp add: Structural_apply_def)
qed

lemma Structural_apply_first_not_mapping:
  assumes "list_all (accepted_arg ops cls) args" and "\<not> clashes [''cls''] kw"
  shows "Structural_apply ops cls (args @ NotMapping x # args2) kw = Inl ValueError"
proof -
  let ?d0 = "frozendict (map (\<lambda>(attr, v). (attr, default v)) (TYPEMAP cls))"
  from apply_args_accepted [OF assms(1)] obtain d1
    where a: "apply_args ops cls ?d0 args = Inr d1" by blast
  with apply_args_append [OF a] assms(2) show ?thesis
    by (simp add: Structural_apply_def)
qed

lemma Structural_call_unfold:
  "\<not> clashes [''self''] kw \<Longrightarrow>
   Structural_call ops h self kw =
   (h @ [snd (update_schema_data ops (r_class self) (h ! r_value self) kw)],
    case fst (update_schema_data ops (r_class self) (h ! r_value self) kw) of
      Some e \<Rightarrow> Inl e
    | None \<Rightarrow> Inr (self\<lparr>r_value := length h\<rparr>))"
  by (simp add: Structural_call_def Structural_copy_def split: prod.splits option.splits)

lemma Structural_call_clash:
  "clashes [''self''] kw \<Longrightarrow> Structural_call ops h self kw = (h, Inl TypeError)"
  by (simp add: Structural_call_def)

lemma Structural_call_Inr:
  "snd (Structural_call ops h self kw) = Inr new_self \<Longrightarrow> \<not> clashes [''self''] kw"
  by (auto simp: Structural_call_clash)

lemma Structural_call_frame:
  "take (length h) (fst (Structural_call ops h self kw)) = h"
  by (cases "clashes [''self''] kw") (simp_all add: Structural_call_unfold Structural_call_clash)

lemma Structural_call_receiver:
  "r_value self < length h \<Longrightarrow> fst (Structural_call ops h self kw) ! r_value self = h ! r_value self"
  by (cases "clashes [''self''] kw")
     (simp_all add: Structural_call_unfold Structural_call_clash nth_append)

lemma Structural_call_unknown:
  assumes "attr \<in> fst ` set kw" and "map_of (TYPEMAP (r_class self)) attr = None"
  shows "\<exists>e. snd (Structural_call ops h self kw) = Inl e"
proof (cases "clashes [''self''] kw")
  case True
  then show ?thesis by (simp add: Structural_call_clash)
next
  case False
  from update_schema_data_unknown [OF assms, of ops "h ! r_value self"] False
  show ?thesis by (auto simp: Structural_call_unfold)
qed

lemma Structural_call_first_unknown:
  assumes "accepted ops (r_class self) pre"
    and "\<not> clashes parameter_names (pre @ (attr, v) # post)"
    and "map_of (TYPEMAP (r_class self)) attr = None"
  shows "snd (Structural_call ops h self (pre @ (attr, v) # post)) =
         Inl (AttributeError (''Unknown schema attribute '' @ attr))"
proof -
  from parameter_names_clash [OF assms(2)]
  have s: "\<not> clashes [''self''] (pre @ (attr, v) # post)"
    and c: "\<not> clashes [''cls'', ''value''] ((attr, v) # post)"
    by (simp_all add: clashes_append)
  from update_schema_data_first_failure [OF assms(1) c process_unknown [OF assms(3)],
      where d = "h ! r_value self"]
  show ?thesis by (simp add: Structural_call_unfold [OF s])
qed

lemma Structural_call_applied:
  assumes "snd (Structural_call ops h self kw) = Inr new_self"
    and "map_of (rev kw) a = Some w"
  shows "\<exists>y. process_schema_attribute ops (r_class self) a w = Inr y \<and>
             map_of (fst (Structural_call ops h self kw) ! r_value new_self) a = Some y"
proof -
  from assms(1) have s: "\<not> clashes [''self''] kw" by (rule Structural_call_Inr)
  obtain e d where u: "update_schema_data ops (r_class self) (h ! r_value self) kw = (e, d)"
    by (cases "update_schema_data ops (r_class self) (h ! r_value self) kw")
  with assms(1) have e: "e = None" and n: "new_self = self\<lparr>r_value := length h\<rparr>"
    by (auto simp: Structural_call_unfold [OF s] split: option.splits)
  from update_schema_data_applied [OF u [unfolded e] assms(2)] u n
  show ?thesis by (simp add: Structural_call_unfold [OF s])
qed

lemma processed_iff:
  "list_all (\<lambda>(attr, v). \<not> isl (process_schema_attribute ops cls attr v)) kw \<longleftrightarrow>
   fst ` set kw \<subseteq> fst ` set (TYPEMAP cls) \<and> coercible ops cls kw"
proof (induction kw)
  case Nil
  then show ?case by (simp add: coercible_def)
next
  case (Cons p kw)
  obtain a v where p: "p = (a, v)" by (cases p)
  have "\<not> isl (process_schema_attribute ops cls a v) \<longleftrightarrow>
        a \<in> fst ` set (TYPEMAP cls) \<and>
        (case (map_of (TYPEMAP cls) a, v) of
          (Some schema_type, Val x) \<Rightarrow>
             isinstance ops x (klazz schema_type) \<or>
             \<not> isl (instantiate ops (klazz schema_type) x)
        | _ \<Rightarrow> True)"
  proof (cases "map_of (TYPEMAP cls) a")
    case None
    then have "a \<notin> fst ` set (TYPEMAP cls)" by (simp add: map_of_eq_None_iff)
    with None show ?thesis by (simp add: process_schema_attribute_def)
  next
    case (Some schema_type)
    then have "a \<in> fst ` set (TYPEMAP cls)"
      by (metis map_of_eq_None_iff option.distinct(1))
    with Some show ?thesis
      by (cases v) (simp_all add: process_schema_attribute_def split: sum.splits)
  qed
  with Cons.IH show ?case
    unfolding p coercible_def by auto
qed

lemma accepted_iff:
  "accepted ops cls kw \<longleftrightarrow>
   \<not> clashes [''cls'', ''value''] kw \<and>
   fst ` set kw \<subseteq> fst ` set (TYPEMAP cls) \<and> coercible ops cls kw"
  by (simp add: accepted_def processed_iff)

lemma Structural_call_accepted:
  assumes "accepted ops (r_class self) kw" and "\<not> clashes [''self''] kw"
  shows "snd (Structural_call ops h self kw) = Inr (self\<lparr>r_value := length h\<rparr>)"
proof -
  from update_schema_data_accepted [OF assms(1)] obtain d
    where "update_schema_data ops (r_class self) (h ! r_value self) kw = (None, d)" by blast
  then show ?thesis by (simp add: Structural_call_unfold [OF assms(2)])
qed

lemma Structural_call_other:
  assumes "a \<notin> fst ` set kw" and "\<not> clashes [''self''] kw"
  shows "map_of (fst (Structural_call ops h self kw) ! length h) a = map_of (h ! r_value self) a"
proof -
  obtain e d where u: "update_schema_data ops (r_class self) (h ! r_value self) kw = (e, d)"
    by (cases "update_schema_data ops (r_class self) (h ! r_value self) kw")
  from update_schema_data_other [OF u assms(1)] u show ?thesis
    by (simp add: Structural_call_unfold [OF assms(2)])
qed

text \<open>
  A functional update never writes a dictionary that existed before the call, the
  receiver's included, whatever the overrides.  When no override is passed under the
  name of a parameter and the overrides name schema fields whose values are coerced
  without an exception, it returns a new value: its dictionary is a fresh one, which
  carries every override and agrees with the receiver's on every other name.
\<close>

lemma Structural_call_leaves_receiver:
  "r_value self < length h \<Longrightarrow>
   fst (Structural_call ops h self kw) ! r_value self = h ! r_value self \<and>
   deref (fst (Structural_call ops h self kw)) self = deref h self \<and>
   take (length h) (fst (Structural_call ops h self kw)) = h \<and>
   (\<not> clashes parameter_names kw \<and>
    fst ` set kw \<subseteq> fst ` set (TYPEMAP (r_class self)) \<and> coercible ops (r_class self) kw \<longrightarrow>
      snd (Structural_call ops h self kw) = Inr (self\<lparr>r_value := length h\<rparr>) \<and>
      length (fst (Structural_call ops h self kw)) = Suc (length h) \<and>
      (\<forall>a. a \<notin> fst ` set kw \<longrightarrow>
         map_of (fst (Structural_call ops h self kw) ! length h) a = map_of (h ! r_value self) a) \<and>
      (\<forall>a w. map_of (rev kw) a = Some w \<longrightarrow>
         (\<exists>y. process_schema_attribute ops (r_class self) a w = Inr y \<and>
              map_of (fst (Structural_call ops h self kw) ! length h) a = Some y)))"
proof (intro conjI impI allI)
  assume "r_value self < length h"
  then show "fst (Structural_call ops h self kw) ! r_value self = h ! r_value self"
    by (rule Structural_call_receiver)
next
  assume "r_value self < length h"
  then show "deref (fst (Structural_call ops h self kw)) self = deref h self"
    by (simp add: deref_def Structural_call_receiver)
next
  show "take (length h) (fst (Structural_call ops h self kw)) = h"
    by (rule Structural_call_frame)
next
  assume a: "\<not> clashes parameter_names kw \<and>
    fst ` set kw \<subseteq> fst ` set (TYPEMAP (r_class self)) \<and> coercible ops (r_class self) kw"
  with parameter_names_clash [of kw] have acc: "accepted ops (r_class self) kw"
    and s: "\<not> clashes [''self''] kw"
    by (simp_all add: accepted_iff)
  from acc s show ret: "snd (Structural_call ops h self kw) = Inr (self\<lparr>r_value := length h\<rparr>)"
    by (rule Structural_call_accepted)
  show "length (fst (Structural_call ops h self kw)) = Suc (length h)"
    by (simp add: Structural_call_unfold [OF s])
  show "map_of (fst (Structural_call ops h self kw) ! length h) a = map_of (h ! r_value self) a"
    if "a \<notin> fst ` set kw" for a
    using that s by (rule Structural_call_other)
  show "\<exists>y. process_schema_attribute ops (r_class self) a w = Inr y \<and>
              map_of (fst (Structural_call ops h self kw) ! length h) a = Some y"
    if "map_of (rev kw) a = Some w" for a w
    using Structural_call_applied [OF ret that] by simp
qed

lemma brian_ref_call:
  "Structural_call str_ops [brian] brian_ref [(''last'', Val (Raw [Lit ''wickman'']))] =
   ([brian, brian_wickman], Inr (brian_ref\<lparr>r_value := 1\<rparr>))"
  by (simp add: Structural_call_def Structural_copy_def Employee_def str_ops_def brian_def
      brian_ref_def
      brian_wickman_def process_schema_attribute_def update_schema_data_def
      clashes_def str_isinstance_def str_instantiate_def)

text \<open>
  C2.  The claim fails at a schema that declares a field named \<^verbatim>\<open>value\<close>.  For
  \<^verbatim>\<open>class Box(Struct): value = String\<close>, the override \<^verbatim>\<open>value = "x"\<close> names a
  schema field and \<^verbatim>\<open>_process_schema_attribute\<close> accepts it, yet calling \<^verbatim>\<open>Box()\<close>
  with it returns no new value: \<^verbatim>\<open>_update_schema_data(cls, value, **kw)\<close> has bound
  its parameter \<^verbatim>\<open>value\<close> by position, and the call raises \<^verbatim>\<open>TypeError\<close>.  The
  receiver's dictionary is as it was.
\<close>

theorem C2_call_reserved_name:
  "map_of (TYPEMAP (r_class box_ref)) ''value'' =
     Some \<lparr>klazz = StringT, required = False, default = Empty\<rparr> \<and>
   process_schema_attribute str_ops (r_class box_ref) ''value'' (Val (Raw [Lit ''x''])) =
     Inr (Val (Str [Lit ''x''] [])) \<and>
   snd (Structural_call str_ops [box0] box_ref [(''value'', Val (Raw [Lit ''x'']))]) =
     Inl TypeError \<and>
   fst (Structural_call str_ops [box0] box_ref [(''value'', Val (Raw [Lit ''x'']))]) !
     r_value box_ref = box0"
  by (simp add: Structural_call_def Structural_copy_def update_schema_data_def clashes_def
      box_ref_def Box_def box0_def process_schema_attribute_def str_ops_def str_isinstance_def
      str_instantiate_def)

text \<open>
  C7, as amended.  \<^verbatim>\<open>_process_schema_attribute\<close> raises the unknown-field error on a
  name that is not in the schema.  A construction or a functional update that
  supplies such a name fails, and so does a construction with a positional argument
  that is not a mapping.  Where no override from the defective one on is passed under
  the name of a parameter (\<^verbatim>\<open>self\<close>, \<^verbatim>\<open>cls\<close>, \<^verbatim>\<open>value\<close>), the exception is that
  of the first defective override in processing order (positional arguments left to
  right, then keywords): the unknown-field error when everything before the unknown
  name is accepted, \<^verbatim>\<open>ValueError\<close> when everything before the argument that is not a
  mapping is accepted.  Construction is atomic: a field mapping that is returned has
  the keys of the schema and carries every override, and a functional update leaves
  every dictionary that existed before the call as it was, whether it returns or
  raises.
\<close>

theorem C7_construction_errors:
  "(map_of (TYPEMAP cls) attr = None \<longrightarrow>
      process_schema_attribute ops cls attr v =
        Inl (AttributeError (''Unknown schema attribute '' @ attr)) \<and>
      (attr \<in> set (override_names args kw) \<longrightarrow> (\<exists>e. Structural_apply ops cls args kw = Inl e)) \<and>
      (list_all (accepted_arg ops cls) args \<and> accepted ops cls pre \<and>
       \<not> clashes parameter_names ((attr, v) # post) \<longrightarrow>
         Structural_apply ops cls args (pre @ (attr, v) # post) =
           Inl (AttributeError (''Unknown schema attribute '' @ attr))) \<and>
      (list_all (accepted_arg ops cls) args \<and> accepted ops cls pre \<and>
       \<not> clashes parameter_names ((attr, v) # post) \<and> \<not> clashes parameter_names kw \<longrightarrow>
         Structural_apply ops cls (args @ Mapping (pre @ (attr, v) # post) # args2) kw =
           Inl (AttributeError (''Unknown schema attribute '' @ attr)))) \<and>
   (NotMapping x \<in> set args \<longrightarrow> (\<exists>e. Structural_apply ops cls args kw = Inl e)) \<and>
   (list_all (accepted_arg ops cls) args \<and> \<not> clashes parameter_names kw \<longrightarrow>
      Structural_apply ops cls (args @ NotMapping x # args2) kw = Inl ValueError) \<and>
   (Structural_apply ops cls args kw = Inr d \<longrightarrow>
      fst ` set d = fst ` set (TYPEMAP cls) \<and>
      (\<forall>a w. map_of (rev (flat_overrides args kw)) a = Some w \<longrightarrow>
         (\<exists>y. process_schema_attribute ops cls a w = Inr y \<and> map_of d a = Some y))) \<and>
   take (length h) (fst (Structural_call ops h self kw)) = h \<and>
   (map_of (TYPEMAP (r_class self)) attr = None \<longrightarrow>
      (attr \<in> fst ` set kw \<longrightarrow> (\<exists>e. snd (Structural_call ops h self kw) = Inl e)) \<and>
      (accepted ops (r_class self) pre \<and>
       \<not> clashes parameter_names (pre @ (attr, v) # post) \<longrightarrow>
         snd (Structural_call ops h self (pre @ (attr, v) # post)) =
           Inl (AttributeError (''Unknown schema attribute '' @ attr)))) \<and>
   (snd (Structural_call ops h self kw) = Inr new_self \<longrightarrow>
      (\<forall>a w. map_of (rev kw) a = Some w \<longrightarrow>
         (\<exists>y. process_schema_attribute ops (r_class self) a w = Inr y \<and>
              map_of (fst (Structural_call ops h self kw) ! r_value new_self) a = Some y)))"
proof (intro conjI impI allI)
  assume "map_of (TYPEMAP cls) attr = None"
  then show "process_schema_attribute ops cls attr v =
        Inl (AttributeError (''Unknown schema attribute '' @ attr))"
    by (rule process_unknown)
next
  assume "map_of (TYPEMAP cls) attr = None" "attr \<in> set (override_names args kw)"
  then show "\<exists>e. Structural_apply ops cls args kw = Inl e"
    by (intro Structural_apply_fails unknown_not_accepted)
next
  assume u: "map_of (TYPEMAP cls) attr = None"
    and a: "list_all (accepted_arg ops cls) args \<and> accepted ops cls pre \<and>
       \<not> clashes parameter_names ((attr, v) # post)"
  from a parameter_names_clash [of "(attr, v) # post"]
  have "\<not> clashes [''cls'', ''value''] ((attr, v) # post)" by simp
  with a u show "Structural_apply ops cls args (pre @ (attr, v) # post) =
           Inl (AttributeError (''Unknown schema attribute '' @ attr))"
    by (simp add: Structural_apply_first_unknown_kw)
next
  assume u: "map_of (TYPEMAP cls) attr = None"
    and a: "list_all (accepted_arg ops cls) args \<and> accepted ops cls pre \<and>
       \<not> clashes parameter_names ((attr, v) # post) \<and> \<not> clashes parameter_names kw"
  from a parameter_names_clash [of "(attr, v) # post"] parameter_names_clash [of kw]
  have "\<not> clashes [''cls'', ''value''] ((attr, v) # post)" and "\<not> clashes [''cls''] kw"
    by simp_all
  with a u show "Structural_apply ops cls (args @ Mapping (pre @ (attr, v) # post) # args2) kw =
           Inl (AttributeError (''Unknown schema attribute '' @ attr))"
    by (simp add: Structural_apply_first_unknown_positional)
next
  assume "NotMapping x \<in> set args"
  then have "\<not> list_all (accepted_arg ops cls) args"
    by (auto simp: list_all_iff intro!: bexI [of _ "NotMapping x"])
  then show "\<exists>e. Structural_apply ops cls args kw = Inl e"
    by (intro Structural_apply_fails) simp
next
  assume a: "list_all (accepted_arg ops cls) args \<and> \<not> clashes parameter_names kw"
  with parameter_names_clash [of kw] have "\<not> clashes [''cls''] kw" by simp
  with a show "Structural_apply ops cls (args @ NotMapping x # args2) kw = Inl ValueError"
    by (simp add: Structural_apply_first_not_mapping)
next
  assume "Structural_apply ops cls args kw = Inr d"
  then show "fst ` set d = fst ` set (TYPEMAP cls)"
    by (rule Structural_apply_keys)
next
  fix a w
  assume "Structural_apply ops cls args kw = Inr d"
    "map_of (rev (flat_overrides args kw)) a = Some w"
  then show "\<exists>y. process_schema_attribute ops cls a w = Inr y \<and> map_of d a = Some y"
    by (rule Structural_apply_applied)
next
  show "take (length h) (fst (Structural_call ops h self kw)) = h"
    by (rule Structural_call_frame)
next
  assume "map_of (TYPEMAP (r_class self)) attr = None" "attr \<in> fst ` set kw"
  then show "\<exists>e. snd (Structural_call ops h self kw) = Inl e"
    by (intro Structural_call_unknown)
next
  assume u: "map_of (TYPEMAP (r_class self)) attr = None"
    and a: "accepted ops (r_class self) pre \<and>
       \<not> clashes parameter_names (pre @ (attr, v) # post)"
  from a have "accepted ops (r_class self) pre"
    and "\<not> clashes parameter_names (pre @ (attr, v) # post)" by simp_all
  then show "snd (Structural_call ops h self (pre @ (attr, v) # post)) =
           Inl (AttributeError (''Unknown schema attribute '' @ attr))"
    using u by (rule Structural_call_first_unknown)
next
  fix a w
  assume "snd (Structural_call ops h self kw) = Inr new_self" "map_of (rev kw) a = Some w"
  then show "\<exists>y. process_schema_attribute ops (r_class self) a w = Inr y \<and>
              map_of (fst (Structural_call ops h self kw) ! r_value new_self) a = Some y"
    by (rule Structural_call_applied)
qed

lemma brian_wickman_apply:
  "Structural_apply str_ops Employee [Mapping [(''first'', Val (Raw [Lit ''brian'']))]]
     [(''last'', Val (Raw [Lit ''wickman'']))] = Inr brian_wickman"
  by (simp add: Structural_apply_def Employee_def frozendict_def dict_def str_ops_def
      brian_wickman_def process_schema_attribute_def update_schema_data_def
      clashes_def str_isinstance_def str_instantiate_def)

theorem C7_construction_errors_witness:
  "map_of (TYPEMAP Employee) ''bogus'' = None \<and>
   ''bogus'' \<in> set (override_names ([] :: pyval posarg list) [(''bogus'', Empty)]) \<and>
   \<not> clashes parameter_names ((''bogus'', Empty :: pyval slot) # []) \<and>
   \<not> clashes parameter_names
       ([(''first'', Val (Raw [Lit ''brian'']))] @ (''bogus'', Empty) # []) \<and>
   (\<exists>e. Structural_apply str_ops Employee [] [(''bogus'', Empty)] = Inl e) \<and>
   list_all (accepted_arg str_ops Employee) [] \<and>
   accepted str_ops Employee [(''first'', Val (Raw [Lit ''brian'']))] \<and>
   Structural_apply str_ops Employee []
     ([(''first'', Val (Raw [Lit ''brian'']))] @ (''bogus'', Empty) # []) =
     Inl (AttributeError ''Unknown schema attribute bogus'') \<and>
   Structural_apply str_ops Employee
     ([] @ Mapping ([(''first'', Val (Raw [Lit ''brian'']))] @ (''bogus'', Empty) # []) # [])
     [(''bogus'', Empty)] = Inl (AttributeError ''Unknown schema attribute bogus'') \<and>
   Structural_apply str_ops Employee ([] @ NotMapping RawUnit # []) [(''bogus'', Empty)] =
     Inl ValueError \<and>
   NotMapping RawUnit \<in> set [NotMapping RawUnit, Mapping [(''first'', Empty)]] \<and>
   (\<exists>e. Structural_apply str_ops Employee [NotMapping RawUnit, Mapping [(''first'', Empty)]] [] =
      Inl e) \<and>
   Structural_apply str_ops Employee [Mapping [(''first'', Val (Raw [Lit ''brian'']))]]
     [(''last'', Val (Raw [Lit ''wickman'']))] = Inr brian_wickman \<and>
   map_of (rev (flat_overrides [Mapping [(''first'', Val (Raw [Lit ''brian'']))]]
                  [(''last'', Val (Raw [Lit ''wickman'']))])) ''first'' =
     Some (Val (Raw [Lit ''brian''])) \<and>
   map_of brian_wickman ''first'' = Some (Val (Str [Lit ''brian''] [])) \<and>
   map_of (TYPEMAP (r_class brian_ref)) ''bogus'' = None \<and>
   ''bogus'' \<in> fst ` set [(''bogus'', Empty :: pyval slot)] \<and>
   snd (Structural_call str_ops [brian] brian_ref
          ([(''first'', Val (Raw [Lit ''brian'']))] @ (''bogus'', Empty) # [])) =
     Inl (AttributeError ''Unknown schema attribute bogus'') \<and>
   take (length [brian])
     (fst (Structural_call str_ops [brian] brian_ref [(''bogus'', Empty)])) = [brian] \<and>
   snd (Structural_call str_ops [brian] brian_ref [(''last'', Val (Raw [Lit ''wickman'']))]) =
     Inr (brian_ref\<lparr>r_value := 1\<rparr>) \<and>
   map_of (fst (Structural_call str_ops [brian] brian_ref
                 [(''last'', Val (Raw [Lit ''wickman'']))]) ! 1) ''last'' =
     Some (Val (Str [Lit ''wickman''] []))"
  using
    C7_construction_errors [where cls = Employee and attr = "''bogus''" and ops = str_ops
      and v = Empty and args = "[]" and kw = "[(''bogus'', Empty)]"
      and pre = "[(''first'', Val (Raw [Lit ''brian'']))]" and post = "[]" and ?args2.0 = "[]"
      and x = RawUnit and h = "[brian]" and self = brian_ref]
    C7_construction_errors [where cls = Employee and ops = str_ops
      and args = "[NotMapping RawUnit, Mapping [(''first'', Empty)]]" and kw = "[]"
      and x = RawUnit]
    C7_construction_errors [where cls = Employee and ops = str_ops
      and args = "[Mapping [(''first'', Val (Raw [Lit ''brian'']))]]"
      and kw = "[(''last'', Val (Raw [Lit ''wickman'']))]" and d = brian_wickman
      and h = "[brian]" and self = brian_ref and new_self = "brian_ref\<lparr>r_value := 1\<rparr>"]
    brian_wickman_apply brian_ref_call
  by (simp add: Employee_def override_names_def flat_overrides_def accepted_def brian_def
      parameter_names_def clashes_def update_schema_data_def
      brian_wickman_def brian_ref_def str_ops_def process_schema_attribute_def
      str_isinstance_def str_instantiate_def)

text \<open>
  C7 as stated fails: a positional argument that is not a mapping is met before the
  keyword \<^verbatim>\<open>bogus\<close>, and the construction raises \<^verbatim>\<open>ValueError\<close>, not the
  unknown-field error.
\<close>

theorem C7_counterexample:
  "''bogus'' \<in> set (override_names [NotMapping RawUnit] [(''bogus'', Empty)]) \<and>
   map_of (TYPEMAP Employee) ''bogus'' = None \<and>
   Structural_apply str_ops Employee [NotMapping RawUnit] [(''bogus'', Empty)] = Inl ValueError"
  by (simp add: override_names_def Employee_def Structural_apply_def clashes_def)

subsection \<open>\<^verbatim>\<open>check\<close>\<close>

lemma check_items_returns:
  "fst ` set items \<subseteq> fst ` set (s_value self) \<Longrightarrow> \<exists>tc. check_items ops self items = Inr tc"
proof (induction items)
  case Nil
  then show ?case by simp
next
  case (Cons item items)
  obtain name sig where item: "item = (name, sig)" by (cases item)
  from Cons.prems item have "map_of (s_value self) name \<noteq> None"
    by (simp add: map_of_eq_None_iff)
  then obtain s where s: "map_of (s_value self) name = Some s" by blast
  from Cons.prems have "\<exists>tc. check_items ops self items = Inr tc"
    by (intro Cons.IH) simp
  with s show ?case
    by (cases s) (auto simp: item Let_def)
qed

lemma check_items_skip:
  "list_all (field_ok ops self) pre \<Longrightarrow>
   check_items ops self (pre @ items) = check_items ops self items"
proof (induction pre)
  case Nil
  then show ?case by simp
next
  case (Cons item pre)
  obtain name sig where item: "item = (name, sig)" by (cases item)
  from Cons.prems have okf: "field_ok ops self (name, sig)" and rest: "list_all (field_ok ops self) pre"
    by (simp_all add: item)
  from okf Cons.IH [OF rest] show ?case
    by (auto simp: item field_ok_def Let_def split: option.splits slot.splits)
qed

lemma check_items_Success:
  "check_items ops self items = Inr Success \<longleftrightarrow> list_all (field_ok ops self) items"
proof (induction items)
  case Nil
  then show ?case by simp
next
  case (Cons item items)
  obtain name sig where item: "item = (name, sig)" by (cases item)
  from Cons.IH show ?case
    by (auto simp: item field_ok_def Let_def split: option.splits slot.splits)
qed

lemma field_ok_iff:
  "list_all (field_ok ops self) items \<longleftrightarrow>
   fst ` set items \<subseteq> fst ` set (s_value self) \<and>
   (\<forall>(name, sig) \<in> set items. map_of (s_value self) name = Some Empty \<longrightarrow> \<not> required sig) \<and>
   (\<forall>(name, sig) \<in> set items. \<forall>x. map_of (s_value self) name = Some (Val x) \<longrightarrow>
       ok (obj_check ops (in_scope ops x (Structural_scopes ops self))))"
proof (induction items)
  case Nil
  then show ?case by simp
next
  case (Cons item items)
  obtain name sig where item: "item = (name, sig)" by (cases item)
  have "field_ok ops self (name, sig) \<longleftrightarrow>
      name \<in> fst ` set (s_value self) \<and>
      (map_of (s_value self) name = Some Empty \<longrightarrow> \<not> required sig) \<and>
      (\<forall>x. map_of (s_value self) name = Some (Val x) \<longrightarrow>
         ok (obj_check ops (in_scope ops x (Structural_scopes ops self))))"
  proof (cases "map_of (s_value self) name")
    case None
    then have "name \<notin> fst ` set (s_value self)" by (simp add: map_of_eq_None_iff)
    with None show ?thesis by (simp add: field_ok_def)
  next
    case (Some s)
    then have "name \<in> fst ` set (s_value self)"
      by (metis map_of_eq_None_iff option.distinct(1))
    with Some show ?thesis by (cases s) (simp_all add: field_ok_def)
  qed
  with Cons.IH show ?case unfolding item by auto
qed

lemma Structural_check_first_failure:
  assumes "TYPEMAP (s_class self) = pre @ (name, sig) # post"
    and "list_all (field_ok ops self) pre"
  shows "Structural_check ops self = check_items ops self ((name, sig) # post)"
  using check_items_skip [OF assms(2)] by (simp add: Structural_check_def assms(1))

text \<open>
  C4, as amended.  On a composite value (every schema name has a slot) \<^verbatim>\<open>check\<close>
  returns its result and never raises.  With a required field that is \<^verbatim>\<open>Empty\<close> the
  result is a failure.  The message is that of the first field, in the iteration
  order of the schema, that does not pass: the type, the field and \<^verbatim>\<open>is required\<close>
  when that field is required and \<^verbatim>\<open>Empty\<close>, the type, the field and the message
  of the field's own check when that check fails.  \<^verbatim>\<open>check\<close> succeeds if and only if
  no required field is \<^verbatim>\<open>Empty\<close> and the own check of every field that is not
  \<^verbatim>\<open>Empty\<close>, run in the scope chain of the composite, succeeds.
\<close>

theorem C4_check:
  "fst ` set (TYPEMAP (s_class self)) \<subseteq> fst ` set (s_value self) \<Longrightarrow>
   (\<exists>tc. Structural_check ops self = Inr tc) \<and>
   ((name, sig) \<in> set (TYPEMAP (s_class self)) \<and> required sig \<and>
    map_of (s_value self) name = Some Empty \<longrightarrow>
      (\<exists>m. Structural_check ops self = Inr (Failure m))) \<and>
   (TYPEMAP (s_class self) = pre @ (name, sig) # post \<and> list_all (field_ok ops self) pre \<longrightarrow>
      (required sig \<and> map_of (s_value self) name = Some Empty \<longrightarrow>
         Structural_check ops self =
           Inr (Failure (cls_name (s_class self) @ ''['' @ name @ ''] is required.''))) \<and>
      (\<forall>x. map_of (s_value self) name = Some (Val x) \<and>
           \<not> ok (obj_check ops (in_scope ops x (Structural_scopes ops self))) \<longrightarrow>
         Structural_check ops self =
           Inr (Failure (cls_name (s_class self) @ ''['' @ name @ ''] failed: '' @
                  message (obj_check ops (in_scope ops x (Structural_scopes ops self))))))) \<and>
   (Structural_check ops self = Inr Success \<longleftrightarrow>
      (\<forall>(name, sig) \<in> set (TYPEMAP (s_class self)).
          map_of (s_value self) name = Some Empty \<longrightarrow> \<not> required sig) \<and>
      (\<forall>(name, sig) \<in> set (TYPEMAP (s_class self)).
          \<forall>x. map_of (s_value self) name = Some (Val x) \<longrightarrow>
            ok (obj_check ops (in_scope ops x (Structural_scopes ops self)))))"
proof -
  assume inv: "fst ` set (TYPEMAP (s_class self)) \<subseteq> fst ` set (s_value self)"
  have returns: "\<exists>tc. Structural_check ops self = Inr tc"
    unfolding Structural_check_def using inv by (rule check_items_returns)
  have success: "Structural_check ops self = Inr Success \<longleftrightarrow>
      (\<forall>(name, sig) \<in> set (TYPEMAP (s_class self)).
          map_of (s_value self) name = Some Empty \<longrightarrow> \<not> required sig) \<and>
      (\<forall>(name, sig) \<in> set (TYPEMAP (s_class self)).
          \<forall>x. map_of (s_value self) name = Some (Val x) \<longrightarrow>
            ok (obj_check ops (in_scope ops x (Structural_scopes ops self))))"
    using inv by (simp add: Structural_check_def check_items_Success field_ok_iff)
  have absent: "\<exists>m. Structural_check ops self = Inr (Failure m)"
    if "(name, sig) \<in> set (TYPEMAP (s_class self)) \<and> required sig \<and>
        map_of (s_value self) name = Some Empty"
  proof -
    from that success have "Structural_check ops self \<noteq> Inr Success" by auto
    with returns show ?thesis by (metis TypeCheck.exhaust)
  qed
  have first_required: "Structural_check ops self =
           Inr (Failure (cls_name (s_class self) @ ''['' @ name @ ''] is required.''))"
    if "TYPEMAP (s_class self) = pre @ (name, sig) # post \<and> list_all (field_ok ops self) pre"
      and "required sig \<and> map_of (s_value self) name = Some Empty"
    using that Structural_check_first_failure [of self pre name sig post ops] by simp
  have first_failed: "Structural_check ops self =
           Inr (Failure (cls_name (s_class self) @ ''['' @ name @ ''] failed: '' @
                  message (obj_check ops (in_scope ops x (Structural_scopes ops self)))))"
    if "TYPEMAP (s_class self) = pre @ (name, sig) # post \<and> list_all (field_ok ops self) pre"
      and "map_of (s_value self) name = Some (Val x) \<and>
           \<not> ok (obj_check ops (in_scope ops x (Structural_scopes ops self)))" for x
    using that Structural_check_first_failure [of self pre name sig post ops] by simp
  from returns absent first_required first_failed success show ?thesis by blast
qed

lemma nobody_check:
  "Structural_check str_ops nobody = Inr (Failure ''Employee[first] is required.'')"
  by (simp add: Structural_check_def nobody_def Employee_def)

lemma caller_check:
  "Structural_check (str_ops\<lparr>obj_check := \<lambda>v. Failure ''bad''\<rparr>) caller =
   Inr (Failure ''Contact[phone] failed: bad'')"
  by (simp add: Structural_check_def caller_def Contact_def)

text \<open>
  C4 as stated fails twice.  A value of \<^verbatim>\<open>Employee\<close> with no field set has no field
  whose own check fails, and \<^verbatim>\<open>check\<close> does not succeed.  A value of \<^verbatim>\<open>Contact\<close>
  with its required \<^verbatim>\<open>email\<close> unset and a \<^verbatim>\<open>phone\<close> whose own check fails is
  reported by a message that names \<^verbatim>\<open>phone\<close>.
\<close>

theorem C4_counterexample:
  "map_of (TYPEMAP (s_class nobody)) ''first'' =
     Some \<lparr>klazz = StringT, required = True, default = Empty\<rparr> \<and>
   map_of (s_value nobody) ''first'' = Some Empty \<and>
   list_all (\<lambda>(name, v). case v of Empty \<Rightarrow> True
       | Val x \<Rightarrow> ok (obj_check str_ops (in_scope str_ops x (Structural_scopes str_ops nobody))))
     (s_value nobody) \<and>
   Structural_check str_ops nobody \<noteq> Inr Success \<and>
   map_of (TYPEMAP (s_class caller)) ''email'' =
     Some \<lparr>klazz = StringT, required = True, default = Empty\<rparr> \<and>
   map_of (s_value caller) ''email'' = Some Empty \<and>
   Structural_check (str_ops\<lparr>obj_check := \<lambda>v. Failure ''bad''\<rparr>) caller =
     Inr (Failure ''Contact[phone] failed: bad'')"
  using nobody_check caller_check
  by (simp add: nobody_def caller_def Employee_def Contact_def)

theorem C4_check_witness:
  "fst ` set (TYPEMAP (s_class nobody)) \<subseteq> fst ` set (s_value nobody) \<and>
   (''first'', \<lparr>klazz = StringT, required = True, default = Empty\<rparr>) \<in> set (TYPEMAP (s_class nobody)) \<and>
   TYPEMAP (s_class nobody) =
     [] @ (''first'', \<lparr>klazz = StringT, required = True, default = Empty\<rparr>) #
       [(''last'', \<lparr>klazz = StringT, required = False, default = Empty\<rparr>)] \<and>
   list_all (field_ok str_ops nobody) [] \<and>
   map_of (s_value nobody) ''first'' = Some Empty \<and>
   Structural_check str_ops nobody = Inr (Failure ''Employee[first] is required.'') \<and>
   fst ` set (TYPEMAP (s_class caller)) \<subseteq> fst ` set (s_value caller) \<and>
   TYPEMAP (s_class caller) =
     [] @ (''phone'', \<lparr>klazz = StringT, required = False, default = Empty\<rparr>) #
       [(''email'', \<lparr>klazz = StringT, required = True, default = Empty\<rparr>)] \<and>
   map_of (s_value caller) ''phone'' = Some (Val (Str [Lit ''555''] [])) \<and>
   Structural_check (str_ops\<lparr>obj_check := \<lambda>v. Failure ''bad''\<rparr>) caller =
     Inr (Failure ''Contact[phone] failed: bad'') \<and>
   Structural_check str_ops \<lparr>s_class = Employee, s_value = brian, s_scopes = []\<rparr> = Inr Success"
  using
    C4_check [where self = nobody and ops = str_ops and name = "''first''"
      and sig = "\<lparr>klazz = StringT, required = True, default = Empty\<rparr>" and pre = "[]"
      and post = "[(''last'', \<lparr>klazz = StringT, required = False, default = Empty\<rparr>)]"]
    C4_check [where self = caller and ops = "str_ops\<lparr>obj_check := \<lambda>v. Failure ''bad''\<rparr>"
      and name = "''phone''"
      and sig = "\<lparr>klazz = StringT, required = False, default = Empty\<rparr>" and pre = "[]"
      and post = "[(''email'', \<lparr>klazz = StringT, required = True, default = Empty\<rparr>)]"]
    C4_check [where self = "\<lparr>s_class = Employee, s_value = brian, s_scopes = []\<rparr>"
      and ops = str_ops]
  by (simp add: nobody_def caller_def Employee_def Contact_def brian_def str_ops_def)

subsection \<open>\<^verbatim>\<open>interpolate\<close>\<close>

lemma map_of_rev_distinct: "distinct (map fst xs) \<Longrightarrow> map_of (rev xs) = map_of xs"
proof
  fix k
  assume d: "distinct (map fst xs)"
  then have d': "distinct (map fst (rev xs))" by (simp add: rev_map [symmetric])
  show "map_of (rev xs) k = map_of xs k"
  proof (cases "map_of xs k")
    case None
    then have "k \<notin> fst ` set (rev xs)" by (simp add: map_of_eq_None_iff)
    then have "map_of (rev xs) k = None" using map_of_eq_None_iff [of "rev xs" k] by blast
    with None show ?thesis by simp
  next
    case (Some y)
    with d have "(k, y) \<in> set (rev xs)" by simp
    with d' Some show ?thesis by simp
  qed
qed

lemma interpolate_items_data:
  "distinct (map fst (data @ items)) \<Longrightarrow>
   fst (interpolate_items ops scopes items (data, unbound)) =
   data @ map (\<lambda>(key, v). (key, interpolate_slot ops scopes v)) items"
proof (induction items arbitrary: data unbound)
  case Nil
  then show ?case by simp
next
  case (Cons item items)
  obtain key v where item: "item = (key, v)" by (cases item)
  from Cons.prems item have fresh: "key \<notin> fst ` set data" by auto
  have d: "distinct (map fst ((data @ [(key, w)]) @ items))" for w
    using Cons.prems item by auto
  show ?case
  proof (cases v)
    case Empty
    with Cons.IH [OF d] show ?thesis
      by (simp add: item update_fresh [OF fresh] interpolate_slot_def)
  next
    case (Val x)
    with Cons.IH [OF d] show ?thesis
      by (simp add: item update_fresh [OF fresh] interpolate_slot_def split: prod.splits)
  qed
qed

lemma interpolate_items_unbound:
  "set (snd (interpolate_items ops scopes items (data, unbound))) =
   set unbound \<union> (\<Union>(key, v) \<in> set items. slot_unbound ops scopes v)"
proof (induction items arbitrary: data unbound)
  case Nil
  then show ?case by simp
next
  case (Cons item items)
  obtain key v where item: "item = (key, v)" by (cases item)
  show ?case
  proof (cases v)
    case Empty
    with Cons.IH show ?thesis by (simp add: item slot_unbound_def)
  next
    case (Val x)
    with Cons.IH show ?thesis
      by (auto simp: item slot_unbound_def split: prod.splits)
  qed
qed

lemma interpolate_items_distinct:
  "distinct unbound \<Longrightarrow> distinct (snd (interpolate_items ops scopes items (data, unbound)))"
proof (induction items arbitrary: data unbound)
  case Nil
  then show ?case by simp
next
  case (Cons item items)
  obtain key v where item: "item = (key, v)" by (cases item)
  show ?case
  proof (cases v)
    case Empty
    with Cons show ?thesis by (simp add: item)
  next
    case (Val x)
    with Cons show ?thesis by (simp add: item split: prod.splits)
  qed
qed

lemma Structural_apply_accepted:
  assumes "list_all (accepted_arg ops cls) args" and "accepted ops cls kw"
  shows "\<exists>d. Structural_apply ops cls args kw = Inr d"
proof -
  from apply_args_accepted [OF assms(1)] obtain d1
    where a: "apply_args ops cls
           (frozendict (map (\<lambda>(attr, v). (attr, default v)) (TYPEMAP cls))) args = Inr d1"
    by blast
  from update_schema_data_accepted [OF assms(2)] obtain d
    where "update_schema_data ops cls d1 kw = (None, d)" by blast
  with a accepted_no_clash [OF assms(2)] show ?thesis by (simp add: Structural_apply_def)
qed

lemma self_scope_set:
  "distinct (map fst d) \<Longrightarrow> set (self_scope d) = {(key, x). (key, Val x) \<in> set d}"
proof -
  let ?xs = "List.map_filter (\<lambda>(key, v). case v of Empty \<Rightarrow> None | Val x \<Rightarrow> Some (key, x)) d"
  assume dist: "distinct (map fst d)"
  have keys: "map fst ?xs = map fst (filter (\<lambda>(key, v). v \<noteq> Empty) d)"
    by (induction d) (auto simp: List.map_filter_simps split: slot.splits)
  from dist have "distinct (map fst ?xs)"
    unfolding keys by (rule distinct_map_filter)
  then have "self_scope d = ?xs" by (simp add: self_scope_def dict_id)
  moreover have "set ?xs = {(key, x). (key, Val x) \<in> set d}"
    by (induction d) (auto simp: List.map_filter_simps split: slot.splits)
  ultimately show ?thesis by simp
qed

lemma process_instance:
  "map_of (TYPEMAP cls) attr = Some sig \<Longrightarrow> isinstance ops y (klazz sig) \<Longrightarrow>
   process_schema_attribute ops cls attr (Val y) = Inr (Val y)"
  by (simp add: process_schema_attribute_def)

lemma process_Empty:
  "map_of (TYPEMAP cls) attr = Some sig \<Longrightarrow>
   process_schema_attribute ops cls attr Empty = Inr Empty"
  by (simp add: process_schema_attribute_def)

lemma interpolate_slot_processed:
  assumes keys: "fst ` set (s_value self) \<subseteq> fst ` set (TYPEMAP (s_class self))"
    and inst: "\<forall>key x sig. map_of (s_value self) key = Some (Val x) \<and>
        map_of (TYPEMAP (s_class self)) key = Some sig \<longrightarrow>
        isinstance ops
          (fst (obj_interpolate ops (in_scope ops x (Structural_scopes ops self)))) (klazz sig)"
    and field: "map_of (s_value self) key = Some v"
  shows "process_schema_attribute ops (s_class self) key
           (interpolate_slot ops (Structural_scopes ops self) v) =
         Inr (interpolate_slot ops (Structural_scopes ops self) v)"
proof -
  from field have "map_of (s_value self) key \<noteq> None" by simp
  then have "key \<in> fst ` set (s_value self)" by (simp add: map_of_eq_None_iff)
  with keys have "key \<in> fst ` set (TYPEMAP (s_class self))" by (rule subsetD)
  then have "map_of (TYPEMAP (s_class self)) key \<noteq> None" by (simp add: map_of_eq_None_iff)
  then obtain sig where sig: "map_of (TYPEMAP (s_class self)) key = Some sig" by blast
  show ?thesis
  proof (cases v)
    case Empty
    with sig show ?thesis by (simp add: interpolate_slot_def process_Empty)
  next
    case (Val x)
    with field sig inst have "isinstance ops
        (fst (obj_interpolate ops (in_scope ops x (Structural_scopes ops self)))) (klazz sig)"
      by blast
    with sig Val show ?thesis by (simp add: interpolate_slot_def process_instance)
  qed
qed

lemma clashes_map:
  "clashes params (map (\<lambda>(key, v). (key, f v)) kw) = clashes params kw"
  by (induction kw) (auto simp: clashes_def)


lemma Structural_interpolate_returns:
  assumes dist: "distinct (map fst (s_value self))"
    and keys: "fst ` set (s_value self) \<subseteq> fst ` set (TYPEMAP (s_class self))"
    and inst: "\<forall>key x sig. map_of (s_value self) key = Some (Val x) \<and>
        map_of (TYPEMAP (s_class self)) key = Some sig \<longrightarrow>
        isinstance ops
          (fst (obj_interpolate ops (in_scope ops x (Structural_scopes ops self)))) (klazz sig)"
    and plain: "\<not> clashes parameter_names (s_value self)"
  shows "\<exists>d.
      Structural_apply ops (s_class self) []
        (map (\<lambda>(key, v). (key, interpolate_slot ops (Structural_scopes ops self) v))
           (s_value self)) = Inr d \<and>
      Structural_interpolate ops self =
        Inr (\<lparr>s_class = s_class self, s_value = d, s_scopes = []\<rparr>,
             snd (interpolate_items ops (Structural_scopes ops self) (s_value self) ([], [])))"
proof -
  let ?cls = "s_class self"
  let ?sc = "Structural_scopes ops self"
  let ?data = "map (\<lambda>(key, v). (key, interpolate_slot ops ?sc v)) (s_value self)"
  let ?res = "interpolate_items ops ?sc (s_value self) ([], [])"
  have data: "fst ?res = ?data"
    using interpolate_items_data [of "[]" "s_value self" ops ?sc "[]"] dist by simp
  from plain have pd: "\<not> clashes parameter_names ?data"
    by (simp add: clashes_map)
  have "\<not> isl (process_schema_attribute ops ?cls key (interpolate_slot ops ?sc v))"
    if "(key, v) \<in> set (s_value self)" for key v
  proof -
    from that dist have "map_of (s_value self) key = Some v" by simp
    from interpolate_slot_processed [OF keys inst this] show ?thesis by simp
  qed
  then have "list_all (\<lambda>(attr, v). \<not> isl (process_schema_attribute ops ?cls attr v)) ?data"
    by (auto simp: list_all_iff)
  with parameter_names_clash [OF pd] have "accepted ops ?cls ?data"
    by (simp add: accepted_def)
  with Structural_apply_accepted [of ops ?cls "[]" ?data] obtain d
    where d: "Structural_apply ops ?cls [] ?data = Inr d" by auto
  obtain x1 x2 where r: "?res = (x1, x2)" by (cases ?res)
  with data have "x1 = ?data" by simp
  with r d parameter_names_clash [OF pd] have "Structural_interpolate ops self =
      Inr (\<lparr>s_class = ?cls, s_value = d, s_scopes = []\<rparr>, snd ?res)"
    by (simp add: Structural_interpolate_def Structural_new_def)
  with d show ?thesis by blast
qed


text \<open>
  On a composite value (a dictionary whose keys are schema names) with no field named
  like a parameter, whose present fields interpolate to instances of their field's
  class, \<^verbatim>\<open>interpolate\<close> returns a new value of the same class with the schema's keys:
  a field that is \<^verbatim>\<open>Empty\<close> stays \<^verbatim>\<open>Empty\<close>, a present field holds the result of
  its own interpolation in the full scope chain, which is the frame of the fields
  that are not \<^verbatim>\<open>Empty\<close> followed by the attached outer frames; the list of unbound
  names has no repetition and, as a set, is the union of the names the fields leave
  unbound.
\<close>

lemma Structural_interpolate_fields:
  assumes dist: "distinct (map fst (s_value self))"
    and keys: "fst ` set (s_value self) \<subseteq> fst ` set (TYPEMAP (s_class self))"
    and inst: "\<forall>key x sig. map_of (s_value self) key = Some (Val x) \<and>
        map_of (TYPEMAP (s_class self)) key = Some sig \<longrightarrow>
        isinstance ops
          (fst (obj_interpolate ops (in_scope ops x (Structural_scopes ops self)))) (klazz sig)"
    and plain: "\<not> clashes parameter_names (s_value self)"
  shows "\<exists>new_self unbound.
      Structural_interpolate ops self = Inr (new_self, unbound) \<and>
      s_class new_self = s_class self \<and>
      fst ` set (s_value new_self) = fst ` set (TYPEMAP (s_class self)) \<and>
      (\<forall>key. map_of (s_value self) key = Some Empty \<longrightarrow>
             map_of (s_value new_self) key = Some Empty) \<and>
      (\<forall>key x. map_of (s_value self) key = Some (Val x) \<longrightarrow>
         map_of (s_value new_self) key =
           Some (Val (fst (obj_interpolate ops
             (in_scope ops x (Environment ops (self_scope (s_value self)) # s_scopes self)))))) \<and>
      set (self_scope (s_value self)) = {(key, x). (key, Val x) \<in> set (s_value self)} \<and>
      set unbound =
        (\<Union>(key, v) \<in> set (s_value self).
           slot_unbound ops (Environment ops (self_scope (s_value self)) # s_scopes self) v) \<and>
      distinct unbound"
proof -
  let ?cls = "s_class self"
  let ?sc = "Structural_scopes ops self"
  let ?data = "map (\<lambda>(key, v). (key, interpolate_slot ops ?sc v)) (s_value self)"
  let ?res = "interpolate_items ops ?sc (s_value self) ([], [])"
  have sc: "?sc = Environment ops (self_scope (s_value self)) # s_scopes self"
    by (simp add: Structural_scopes_def)
  have dkeys: "map fst ?data = map fst (s_value self)"
    by (simp add: case_prod_beta comp_def)
  have ddist: "distinct (map fst ?data)"
    using dist by (simp only: dkeys)
  have dmap: "map_of ?data key = map_option (interpolate_slot ops ?sc) (map_of (s_value self) key)"
    for key by (simp add: map_of_map)
  from Structural_interpolate_returns [OF dist keys inst plain] obtain d
    where d: "Structural_apply ops ?cls [] ?data = Inr d"
      and res: "Structural_interpolate ops self =
        Inr (\<lparr>s_class = ?cls, s_value = d, s_scopes = []\<rparr>, snd ?res)" by blast
  let ?new = "\<lparr>s_class = ?cls, s_value = d, s_scopes = []\<rparr>"
  have field: "map_of d key = Some (interpolate_slot ops ?sc v)"
    if "map_of (s_value self) key = Some v" for key v
  proof -
    have "map_of (rev (flat_overrides [] ?data)) key = Some (interpolate_slot ops ?sc v)"
      using that by (simp add: flat_overrides_def map_of_rev_distinct [OF ddist] dmap)
    from Structural_apply_applied [OF d this] interpolate_slot_processed [OF keys inst that]
    show ?thesis by simp
  qed
  show ?thesis
  proof (intro exI conjI)
    show "Structural_interpolate ops self = Inr (?new, snd ?res)" by (rule res)
    show "s_class ?new = s_class self" by simp
    show "fst ` set (s_value ?new) = fst ` set (TYPEMAP ?cls)"
      using Structural_apply_keys [OF d] by simp
    show "\<forall>key. map_of (s_value self) key = Some Empty \<longrightarrow>
        map_of (s_value ?new) key = Some Empty"
    proof (intro allI impI)
      fix key
      assume "map_of (s_value self) key = Some Empty"
      from field [OF this] show "map_of (s_value ?new) key = Some Empty"
        by (simp add: interpolate_slot_def)
    qed
    show "\<forall>key x. map_of (s_value self) key = Some (Val x) \<longrightarrow>
           map_of (s_value ?new) key =
             Some (Val (fst (obj_interpolate ops
               (in_scope ops x (Environment ops (self_scope (s_value self)) # s_scopes self)))))"
    proof (intro allI impI)
      fix key x
      assume "map_of (s_value self) key = Some (Val x)"
      from field [OF this] show "map_of (s_value ?new) key =
             Some (Val (fst (obj_interpolate ops
               (in_scope ops x (Environment ops (self_scope (s_value self)) # s_scopes self)))))"
        by (simp add: interpolate_slot_def sc)
    qed
    show "set (self_scope (s_value self)) = {(key, x). (key, Val x) \<in> set (s_value self)}"
      using dist by (rule self_scope_set)
    show "set (snd ?res) =
          (\<Union>(key, v) \<in> set (s_value self).
             slot_unbound ops (Environment ops (self_scope (s_value self)) # s_scopes self) v)"
      by (simp add: interpolate_items_unbound sc)
    show "distinct (snd ?res)"
      by (simp add: interpolate_items_distinct)
  qed
qed


lemma pair_ab_interpolate:
  "Structural_interpolate str_ops pair_ab =
   Inr (\<lparr>s_class = Pair,
         s_value =
           [(''a'', Val (Str [Lit ''x'', Ref ''z''] [])),
            (''b'', Val (Str [Lit ''x''] []))],
         s_scopes = []\<rparr>,
        [''z''])"
  by (simp add: Structural_interpolate_def Structural_scopes_def self_scope_def dict_def
      List.map_filter_simps pair_ab_def Pair_def str_ops_def str_Environment_def str_text_def
      str_in_scope_def str_interpolate_def Structural_new_def Structural_apply_def
      frozendict_def process_schema_attribute_def update_schema_data_def clashes_def
      str_isinstance_def List.union_def)

text \<open>
  C5.  The claim fails at a schema that declares a field named \<^verbatim>\<open>value\<close>.  The value
  \<^verbatim>\<open>Box()\<close> of \<^verbatim>\<open>class Box(Struct): value = String\<close> is a composite value, its
  one field is \<^verbatim>\<open>Empty\<close> and the loop over the fields keeps it so, with no unbound
  name; yet \<^verbatim>\<open>interpolate\<close> returns no new value.  The rebuild
  \<^verbatim>\<open>self.__class__(**interpolated_schema_data)\<close> passes every field name as a
  keyword, the keyword \<^verbatim>\<open>value\<close> reaches \<^verbatim>\<open>_update_schema_data(cls, value, **kw)\<close>,
  whose parameter of that name is bound by position, and the call raises
  \<^verbatim>\<open>TypeError\<close>.
\<close>

theorem C5_interpolate_reserved_name:
  "distinct (map fst (s_value box_obj)) \<and>
   fst ` set (s_value box_obj) = fst ` set (TYPEMAP (s_class box_obj)) \<and>
   interpolate_items str_ops (Structural_scopes str_ops box_obj) (s_value box_obj) ([], []) =
     ([(''value'', Empty)], []) \<and>
   Structural_interpolate str_ops box_obj = Inl TypeError"
  by (simp add: Structural_interpolate_def Structural_new_def Structural_apply_def
      update_schema_data_def clashes_def frozendict_def dict_def box_obj_def Box_def box0_def)

subsection \<open>\<^verbatim>\<open>find\<close>\<close>

text \<open>
  C6.  \<^verbatim>\<open>find\<close> on a path reference: a first segment that is not a plain
  dereference raises the naming error; a dereferenced name that is not in the schema,
  or whose slot is \<^verbatim>\<open>Empty\<close>, raises not-found; when the rest of the path is empty
  the result is the field's value placed in the current scope chain; when it is not,
  a value that is not path-addressable raises the unnamable error, and otherwise the
  result is that of \<^verbatim>\<open>find\<close> on the value, placed in the current scope chain, with
  the rest of the path.  The three errors are three different exceptions.
\<close>

theorem C6_find:
  "(\<not> is_dereference nm ref \<longrightarrow> Structural_find nm ops self ref = Inl NamingError) \<and>
   (is_dereference nm ref \<and> map_of (TYPEMAP (s_class self)) (action_value nm ref) = None \<longrightarrow>
      Structural_find nm ops self ref = Inl NotFound) \<and>
   (is_dereference nm ref \<and> map_of (TYPEMAP (s_class self)) (action_value nm ref) = Some sig \<and>
    map_of (s_value self) (action_value nm ref) = Some Empty \<longrightarrow>
      Structural_find nm ops self ref = Inl NotFound) \<and>
   (is_dereference nm ref \<and> map_of (TYPEMAP (s_class self)) (action_value nm ref) = Some sig \<and>
    map_of (s_value self) (action_value nm ref) = Some (Val namable) \<longrightarrow>
      (is_empty nm (rest nm ref) \<longrightarrow>
         Structural_find nm ops self ref =
           Inr (in_scope ops namable
                  (Environment ops (self_scope (s_value self)) # s_scopes self))) \<and>
      (\<not> is_empty nm (rest nm ref) \<and> \<not> is_namable nm namable \<longrightarrow>
         Structural_find nm ops self ref = Inl Unnamable) \<and>
      (\<not> is_empty nm (rest nm ref) \<and> is_namable nm namable \<longrightarrow>
         Structural_find nm ops self ref =
           obj_find nm
             (in_scope ops namable (Environment ops (self_scope (s_value self)) # s_scopes self))
             (rest nm ref))) \<and>
   NamingError \<noteq> NotFound \<and> NamingError \<noteq> Unnamable \<and> NotFound \<noteq> Unnamable"
  by (simp add: Structural_find_def Structural_scopes_def Let_def)

theorem C6_find_witness:
  "\<not> is_dereference str_naming [Index ''0''] \<and>
   Structural_find str_naming str_ops brian_obj [Index ''0''] = Inl NamingError \<and>
   is_dereference str_naming [Dereference ''bogus''] \<and>
   map_of (TYPEMAP (s_class brian_obj)) (action_value str_naming [Dereference ''bogus'']) = None \<and>
   Structural_find str_naming str_ops brian_obj [Dereference ''bogus''] = Inl NotFound \<and>
   map_of (s_value brian_obj) (action_value str_naming [Dereference ''last'']) = Some Empty \<and>
   Structural_find str_naming str_ops brian_obj [Dereference ''last''] = Inl NotFound \<and>
   map_of (s_value brian_obj) (action_value str_naming [Dereference ''first'']) =
     Some (Val (Str [Lit ''brian''] [])) \<and>
   is_empty str_naming (rest str_naming [Dereference ''first'']) \<and>
   Structural_find str_naming str_ops brian_obj [Dereference ''first''] =
     Inr (Str [Lit ''brian''] [[(''first'', [Lit ''brian''])]]) \<and>
   \<not> is_empty str_naming (rest str_naming [Dereference ''first'', Dereference ''x'']) \<and>
   \<not> is_namable str_naming (Str [Lit ''brian''] []) \<and>
   Structural_find str_naming str_ops brian_obj [Dereference ''first'', Dereference ''x''] =
     Inl Unnamable \<and>
   is_namable (str_naming\<lparr>is_namable := \<lambda>v. True, obj_find := \<lambda>v r. Inr v\<rparr>)
     (Str [Lit ''brian''] []) \<and>
   Structural_find (str_naming\<lparr>is_namable := \<lambda>v. True, obj_find := \<lambda>v r. Inr v\<rparr>) str_ops
     brian_obj [Dereference ''first'', Dereference ''x''] =
     Inr (Str [Lit ''brian''] [[(''first'', [Lit ''brian''])]])"
  using
    C6_find [where nm = str_naming and ops = str_ops and self = brian_obj
      and ref = "[Index ''0'']"]
    C6_find [where nm = str_naming and ops = str_ops and self = brian_obj
      and ref = "[Dereference ''bogus'']"]
    C6_find [where nm = str_naming and ops = str_ops and self = brian_obj
      and ref = "[Dereference ''last'']"
      and sig = "\<lparr>klazz = StringT, required = False, default = Empty\<rparr>"]
    C6_find [where nm = str_naming and ops = str_ops and self = brian_obj
      and ref = "[Dereference ''first'']"
      and sig = "\<lparr>klazz = StringT, required = True, default = Empty\<rparr>"
      and namable = "Str [Lit ''brian''] []"]
    C6_find [where nm = str_naming and ops = str_ops and self = brian_obj
      and ref = "[Dereference ''first'', Dereference ''x'']"
      and sig = "\<lparr>klazz = StringT, required = True, default = Empty\<rparr>"
      and namable = "Str [Lit ''brian''] []"]
    C6_find [where nm = "str_naming\<lparr>is_namable := \<lambda>v. True, obj_find := \<lambda>v r. Inr v\<rparr>"
      and ops = str_ops and self = brian_obj
      and ref = "[Dereference ''first'', Dereference ''x'']"
      and sig = "\<lparr>klazz = StringT, required = True, default = Empty\<rparr>"
      and namable = "Str [Lit ''brian''] []"]
  by (simp add: str_naming_def brian_obj_def brian_def Employee_def str_ops_def
      str_in_scope_def str_Environment_def str_text_def self_scope_def dict_def
      List.map_filter_simps)

subsection \<open>\<^verbatim>\<open>json_load\<close> and \<^verbatim>\<open>json_loads\<close>\<close>

lemma json_load_loads: "json_load load ops cls fp strict = json_loads load ops cls fp strict"
  by (simp add: json_load_def json_loads_def)

lemma coercible_filter: "coercible ops cls m \<Longrightarrow> coercible ops cls (filter P m)"
  by (simp add: coercible_def list_all_iff)

lemma json_loads_strict:
  "loads json_string = Inr parsed \<Longrightarrow>
   json_loads loads ops cls json_string True = Structural_new ops cls [parsed] []"
  by (simp add: json_loads_def)

lemma json_loads_lenient:
  "loads json_string = Inr (Mapping m) \<Longrightarrow> distinct (map fst m) \<Longrightarrow>
   json_loads loads ops cls json_string False =
   Structural_new ops cls [Mapping (filter (\<lambda>(key, v). map_of (TYPEMAP cls) key \<noteq> None) m)] []"
  by (simp add: json_loads_def filter_against_schema_def dict_id distinct_map_filter)

lemma Structural_new_Inr:
  "Structural_apply ops cls args kw = Inr d \<Longrightarrow> \<not> clashes [''self''] kw \<Longrightarrow>
   Structural_new ops cls args kw = Inr \<lparr>s_class = cls, s_value = d, s_scopes = []\<rparr>"
  by (simp add: Structural_new_def)

lemma Structural_new_Inl:
  "Structural_apply ops cls args kw = Inl e \<Longrightarrow> \<not> clashes [''self''] kw \<Longrightarrow>
   Structural_new ops cls args kw = Inl e"
  by (simp add: Structural_new_def)

text \<open>
  On a parsed JSON object, \<^verbatim>\<open>json_loads\<close> and \<^verbatim>\<open>json_load\<close> in strict mode construct
  from all the keys, so a key that is not in the schema makes the construction fail;
  in non-strict mode they construct from the keys that are in the schema only, and
  when no key is the name of a parameter and the values of the kept keys coerce, the
  result is a value of the class whose fields are the processed values of the
  remaining keys and the defaults of the schema elsewhere.
\<close>

lemma json_loads_modes:
  assumes parsed: "loads json_string = Inr (Mapping m)"
    and dm: "distinct (map fst m)"
    and dt: "distinct (map fst (TYPEMAP cls))"
  shows
   "json_loads loads ops cls json_string True = Structural_new ops cls [Mapping m] [] \<and>
    json_loads loads ops cls json_string False =
      Structural_new ops cls
        [Mapping (filter (\<lambda>(key, v). map_of (TYPEMAP cls) key \<noteq> None) m)] [] \<and>
    ((\<exists>key \<in> fst ` set m. map_of (TYPEMAP cls) key = None) \<longrightarrow>
       (\<exists>e. json_loads loads ops cls json_string True = Inl e)) \<and>
    (\<not> clashes parameter_names m \<and> coercible ops cls m \<longrightarrow>
       (\<exists>new_self. json_loads loads ops cls json_string False = Inr new_self \<and>
          s_class new_self = cls \<and>
          fst ` set (s_value new_self) = fst ` set (TYPEMAP cls) \<and>
          (\<forall>key v. (key, v) \<in> set m \<and> map_of (TYPEMAP cls) key \<noteq> None \<longrightarrow>
             (\<exists>y. process_schema_attribute ops cls key v = Inr y \<and>
                  map_of (s_value new_self) key = Some y)) \<and>
          (\<forall>key sig. key \<notin> fst ` set m \<and> map_of (TYPEMAP cls) key = Some sig \<longrightarrow>
             map_of (s_value new_self) key = Some (default sig)))) \<and>
    json_load loads ops cls json_string True = json_loads loads ops cls json_string True \<and>
    json_load loads ops cls json_string False = json_loads loads ops cls json_string False"
proof -
  let ?kept = "filter (\<lambda>(key, v). map_of (TYPEMAP cls) key \<noteq> None) m"
  have strict: "json_loads loads ops cls json_string True = Structural_new ops cls [Mapping m] []"
    using parsed by (rule json_loads_strict)
  have lenient: "json_loads loads ops cls json_string False =
      Structural_new ops cls [Mapping ?kept] []"
    using parsed dm by (rule json_loads_lenient)
  have unknown: "\<exists>e. json_loads loads ops cls json_string True = Inl e"
    if "\<exists>key \<in> fst ` set m. map_of (TYPEMAP cls) key = None"
  proof -
    from that obtain key where k: "key \<in> fst ` set m" "map_of (TYPEMAP cls) key = None"
      by blast
    then have "key \<in> set (override_names [Mapping m] [])"
      by (simp add: override_names_def)
    from Structural_apply_fails [OF unknown_not_accepted [OF this k(2)], of ops]
    obtain e where "Structural_apply ops cls [Mapping m] [] = Inl e" by blast
    with strict show ?thesis by (simp add: Structural_new_Inl clashes_def)
  qed
  have built: "\<exists>new_self. json_loads loads ops cls json_string False = Inr new_self \<and>
          s_class new_self = cls \<and>
          fst ` set (s_value new_self) = fst ` set (TYPEMAP cls) \<and>
          (\<forall>key v. (key, v) \<in> set m \<and> map_of (TYPEMAP cls) key \<noteq> None \<longrightarrow>
             (\<exists>y. process_schema_attribute ops cls key v = Inr y \<and>
                  map_of (s_value new_self) key = Some y)) \<and>
          (\<forall>key sig. key \<notin> fst ` set m \<and> map_of (TYPEMAP cls) key = Some sig \<longrightarrow>
             map_of (s_value new_self) key = Some (default sig))"
    if co': "\<not> clashes parameter_names m \<and> coercible ops cls m"
  proof -
    from co' have co: "coercible ops cls m" ..
    from co' have "\<not> clashes parameter_names ?kept"
      by (auto simp: clashes_iff)
    from parameter_names_clash [OF this] have pk: "\<not> clashes [''cls'', ''value''] ?kept"
      by simp
    have dk: "distinct (map fst ?kept)" using dm by (rule distinct_map_filter)
    have "fst ` set ?kept \<subseteq> fst ` set (TYPEMAP cls)"
      by (auto simp: map_of_eq_None_iff intro: rev_image_eqI)
    with coercible_filter [OF co] pk have "accepted ops cls ?kept"
      by (simp add: accepted_iff)
    then have "list_all (accepted_arg ops cls) [Mapping ?kept]" by simp
    from Structural_apply_accepted [OF this, of "[]"] obtain d
      where d: "Structural_apply ops cls [Mapping ?kept] [] = Inr d"
      by (auto simp: accepted_def clashes_def)
    let ?new = "\<lparr>s_class = cls, s_value = d, s_scopes = []\<rparr>"
    have fl: "flat_overrides [Mapping ?kept] [] = ?kept"
      by (simp add: flat_overrides_def)
    have applied: "\<exists>y. process_schema_attribute ops cls key v = Inr y \<and>
                map_of (s_value ?new) key = Some y"
      if "(key, v) \<in> set m \<and> map_of (TYPEMAP cls) key \<noteq> None" for key v
    proof -
      from that have "(key, v) \<in> set ?kept" by simp
      with dk have mk: "map_of ?kept key = Some v" by simp
      have "map_of (rev (flat_overrides [Mapping ?kept] [])) key = Some v"
        by (subst fl, subst map_of_rev_distinct [OF dk], rule mk)
      from Structural_apply_applied [OF d this] show ?thesis by simp
    qed
    have unsupplied: "map_of (s_value ?new) key = Some (default sig)"
      if a: "key \<notin> fst ` set m \<and> map_of (TYPEMAP cls) key = Some sig" for key sig
    proof -
      from a have "key \<notin> set (override_names [Mapping ?kept] [])"
        by (auto simp: override_names_def)
      from Structural_apply_unsupplied [OF d dt _ this, of sig] a show ?thesis by simp
    qed
    have "json_loads loads ops cls json_string False = Inr ?new"
      using lenient d by (simp add: Structural_new_Inr clashes_def)
    moreover have "s_class ?new = cls" by simp
    moreover have "fst ` set (s_value ?new) = fst ` set (TYPEMAP cls)"
      using Structural_apply_keys [OF d] by simp
    ultimately show ?thesis using applied unsupplied by blast
  qed
  from strict lenient unknown built show ?thesis
    by (simp add: json_load_loads)
qed


lemma brian_doc_strict:
  "json_loads doc_parser str_ops Employee ''doc'' True =
   Inl (AttributeError ''Unknown schema attribute age'')"
  by (simp add: json_loads_def doc_parser_def brian_doc_def Structural_new_def
      Structural_apply_def Employee_def frozendict_def dict_def str_ops_def
      process_schema_attribute_def update_schema_data_def
      clashes_def str_isinstance_def str_instantiate_def)

lemma brian_doc_lenient:
  "json_loads doc_parser str_ops Employee ''doc'' False = Inr brian_obj"
  by (simp add: json_loads_def doc_parser_def brian_doc_def filter_against_schema_def
      Structural_new_def Structural_apply_def Employee_def frozendict_def dict_def str_ops_def
      process_schema_attribute_def update_schema_data_def
      clashes_def str_isinstance_def str_instantiate_def brian_obj_def
      brian_def)

text \<open>
  C9.  The claim fails at a schema that declares a field named \<^verbatim>\<open>value\<close>.  The parsed
  object \<^verbatim>\<open>{"value": "x"}\<close> has no key that \<^verbatim>\<open>Box\<close> does not declare, the
  filter keeps it whole and \<^verbatim>\<open>_process_schema_attribute\<close> accepts its entry; yet
  \<^verbatim>\<open>json_loads\<close> and \<^verbatim>\<open>json_load\<close> build no value from it, in either mode.  The
  constructor hands the object to \<^verbatim>\<open>apply\<close>, which calls
  \<^verbatim>\<open>_update_schema_data(value, **arg)\<close>; the key \<^verbatim>\<open>value\<close> meets the parameter of
  that name, bound by position, and the call raises \<^verbatim>\<open>TypeError\<close>.
\<close>

theorem C9_json_load_reserved_name:
  "box_parser ''box'' = Inr (Mapping box_doc) \<and>
   filter_against_schema Box (Mapping box_doc) = Inr box_doc \<and>
   process_schema_attribute str_ops Box ''value'' (Val (Raw [Lit ''x''])) =
     Inr (Val (Str [Lit ''x''] [])) \<and>
   json_loads box_parser str_ops Box ''box'' False = Inl TypeError \<and>
   json_load box_parser str_ops Box ''box'' False = Inl TypeError \<and>
   json_loads box_parser str_ops Box ''box'' True = Inl TypeError \<and>
   json_load box_parser str_ops Box ''box'' True = Inl TypeError"
  by (simp add: json_loads_def json_load_def box_parser_def box_doc_def
      filter_against_schema_def dict_def Structural_new_def Structural_apply_def
      update_schema_data_def clashes_def frozendict_def Box_def process_schema_attribute_def
      str_ops_def str_isinstance_def str_instantiate_def)

subsection \<open>\<^verbatim>\<open>__eq__\<close>\<close>







subsection \<open>Cycles of placeholders\<close>












subsection \<open>\<^verbatim>\<open>TypeSignature\<close> and the schema\<close>

lemma TypeSignature_deserialize_empty:
  assumes "TypeFactory_new reg type_dict (serialize_type reg (klazz sig)) = Inr real_class"
    and "default sig = Empty"
  shows "TypeSignature_deserialize reg ops (TypeSignature_serialize reg ops sig) type_dict =
         Inr \<lparr>klazz = real_class, required = required sig, default = Empty\<rparr>"
  using assms
  by (simp add: TypeSignature_deserialize_def TypeSignature_serialize_def empty_def
      TypeSignature_init_def)

lemma TypeSignature_deserialize_default:
  assumes "TypeFactory_new reg type_dict (serialize_type reg (klazz sig)) = Inr real_class"
    and "default sig = Val x"
    and "instantiate ops real_class (obj_get ops x) = Inr y"
    and "isinstance ops y real_class"
  shows "TypeSignature_deserialize reg ops (TypeSignature_serialize reg ops sig) type_dict =
         Inr \<lparr>klazz = real_class, required = required sig, default = Val y\<rparr>"
  using assms
  by (simp add: TypeSignature_deserialize_def TypeSignature_serialize_def empty_def
      TypeSignature_init_def)

lemma signature_roundtrip:
  assumes "roundtrips reg ops type_dict sig"
  shows "\<exists>sig'.
      TypeSignature_deserialize reg ops (TypeSignature_serialize reg ops sig) type_dict =
        Inr sig' \<and>
      TypeSignature_eq reg ops sig sig' \<and> TypeSignature_eq reg ops sig' sig \<and>
      required sig' = required sig \<and>
      empty sig' = empty sig \<and>
      serialize_type reg (klazz sig') = serialize_type reg (klazz sig) \<and>
      slot_eq ops (default sig) (default sig')"
proof -
  from assms obtain real_class
    where reg: "TypeFactory_new reg type_dict (serialize_type reg (klazz sig)) = Inr real_class"
      and desc: "serialize_type reg real_class = serialize_type reg (klazz sig)"
      and dflt: "case default sig of
             Empty \<Rightarrow> True
           | Val x \<Rightarrow>
               (case instantiate ops real_class (obj_get ops x) of
                  Inl e \<Rightarrow> False
                | Inr y \<Rightarrow> isinstance ops y real_class \<and> obj_eq ops x y \<and> obj_eq ops y x)"
    by (auto simp: roundtrips_def split: sum.splits)
  show ?thesis
  proof (cases "default sig")
    case Empty
    let ?sig' = "\<lparr>klazz = real_class, required = required sig, default = Empty\<rparr>"
    from TypeSignature_deserialize_empty [OF reg Empty]
    have "TypeSignature_deserialize reg ops (TypeSignature_serialize reg ops sig) type_dict =
          Inr ?sig'" .
    moreover have "TypeSignature_eq reg ops sig ?sig'" "TypeSignature_eq reg ops ?sig' sig"
      using Empty desc by (simp_all add: TypeSignature_eq_def empty_def)
    moreover have "required ?sig' = required sig" "empty ?sig' = empty sig"
      "serialize_type reg (klazz ?sig') = serialize_type reg (klazz sig)"
      "slot_eq ops (default sig) (default ?sig')"
      using Empty desc by (simp_all add: empty_def)
    ultimately show ?thesis by blast
  next
    case (Val x)
    with dflt obtain y where y: "instantiate ops real_class (obj_get ops x) = Inr y"
      "isinstance ops y real_class" "obj_eq ops x y" "obj_eq ops y x"
      by (auto split: sum.splits)
    let ?sig' = "\<lparr>klazz = real_class, required = required sig, default = Val y\<rparr>"
    from TypeSignature_deserialize_default [OF reg Val y(1) y(2)]
    have "TypeSignature_deserialize reg ops (TypeSignature_serialize reg ops sig) type_dict =
          Inr ?sig'" .
    moreover have "TypeSignature_eq reg ops sig ?sig'" "TypeSignature_eq reg ops ?sig' sig"
      using Val desc y by (simp_all add: TypeSignature_eq_def empty_def)
    moreover have "required ?sig' = required sig" "empty ?sig' = empty sig"
      "serialize_type reg (klazz ?sig') = serialize_type reg (klazz sig)"
      "slot_eq ops (default sig) (default ?sig')"
      using Val desc y by (simp_all add: empty_def)
    ultimately show ?thesis by blast
  qed
qed

lemma deserialize_parameters_roundtrip:
  "list_all (\<lambda>(attr, sig). roundtrips reg ops type_dict sig) items \<Longrightarrow>
   \<exists>items'. deserialize_parameters reg ops type_dict
       (map (\<lambda>(attr, sig). (attr, TypeSignature_serialize reg ops sig)) items) = Inr items' \<and>
     list_all2 (\<lambda>(attr, sig) (attr', sig'). attr' = attr \<and>
        TypeSignature_eq reg ops sig sig' \<and> TypeSignature_eq reg ops sig' sig) items items'"
proof (induction items)
  case Nil
  then show ?case by simp
next
  case (Cons item items)
  obtain attr sig where item: "item = (attr, sig)" by (cases item)
  from Cons.prems item have "roundtrips reg ops type_dict sig" by simp
  from signature_roundtrip [OF this] obtain sig'
    where s: "TypeSignature_deserialize reg ops (TypeSignature_serialize reg ops sig) type_dict =
        Inr sig'" "TypeSignature_eq reg ops sig sig'" "TypeSignature_eq reg ops sig' sig"
    by blast
  from Cons obtain items' where i: "deserialize_parameters reg ops type_dict
       (map (\<lambda>(attr, sig). (attr, TypeSignature_serialize reg ops sig)) items) = Inr items'"
     "list_all2 (\<lambda>(attr, sig) (attr', sig'). attr' = attr \<and>
        TypeSignature_eq reg ops sig sig' \<and> TypeSignature_eq reg ops sig' sig) items items'"
    by auto
  from s i show ?case by (simp add: item)
qed


lemma insort_key_fst_map:
  "insort_key fst (a, f s) (map (\<lambda>(a, s). (a, f s)) ys) =
   map (\<lambda>(a, s). (a, f s)) (insort_key fst (a, s) ys)"
  by (induction ys) auto

lemma sort_key_fst_map:
  "sort_key fst (map (\<lambda>(a, s). (a, f s)) xs) = map (\<lambda>(a, s). (a, f s)) (sort_key fst xs)"
proof (induction xs)
  case Nil
  then show ?case by simp
next
  case (Cons x xs)
  obtain a s where x: "x = (a, s)" by (cases x)
  from Cons.IH show ?case by (simp add: x insort_key_fst_map)
qed

lemma distinct_keys_sort:
  "distinct (map fst xs) \<Longrightarrow> distinct (map fst (sort_key fst xs))"
  by (simp add: distinct_map)

lemma list_all2_keys:
  "list_all2 (\<lambda>(attr, sig) (attr', sig'). attr' = attr \<and> P sig sig') xs ys \<Longrightarrow>
   map fst ys = map fst xs"
  by (induction xs ys rule: list_all2_induct) auto

lemma list_all2_left:
  "list_all2 (\<lambda>(attr, sig) (attr', sig'). attr' = attr \<and> P sig sig') xs ys \<Longrightarrow>
   (k, v) \<in> set xs \<Longrightarrow> \<exists>w. (k, w) \<in> set ys \<and> P v w"
  by (induction xs ys rule: list_all2_induct) auto

lemma list_all2_right:
  "list_all2 (\<lambda>(attr, sig) (attr', sig'). attr' = attr \<and> P sig sig') xs ys \<Longrightarrow>
   (k, w) \<in> set ys \<Longrightarrow> \<exists>v. (k, v) \<in> set xs \<and> P v w"
  by (induction xs ys rule: list_all2_induct) auto

lemma dict_equalI:
  assumes "length a = length b" and "distinct (map fst b)"
    and "\<And>k v. (k, v) \<in> set a \<Longrightarrow> \<exists>w. (k, w) \<in> set b \<and> veq v w"
  shows "dict_equal veq a b"
proof -
  have "case map_of b k of None \<Rightarrow> False | Some w \<Rightarrow> veq v w" if "(k, v) \<in> set a" for k v
  proof -
    from assms(3) [OF that] obtain w where w: "(k, w) \<in> set b" "veq v w" by blast
    with assms(2) have "map_of b k = Some w" by simp
    with w show ?thesis by simp
  qed
  with assms(1) show ?thesis by (auto simp: dict_equal_def list_all_iff)
qed

lemma schema_roundtrip:
  assumes dist: "distinct (map fst (TYPEMAP cls))"
    and rts: "list_all (\<lambda>(attr, sig). roundtrips reg ops type_dict sig) (TYPEMAP cls)"
  shows "\<exists>cls'.
      StructFactory_create reg ops type_dict (type_parameters reg ops cls) = Inr cls' \<and>
      cls_name cls' = cls_name cls \<and>
      fst ` set (TYPEMAP cls') = fst ` set (TYPEMAP cls) \<and>
      dict_equal (TypeSignature_eq reg ops) (TYPEMAP cls) (TYPEMAP cls') \<and>
      dict_equal (TypeSignature_eq reg ops) (TYPEMAP cls') (TYPEMAP cls)"
proof -
  let ?T = "sort_key fst (TYPEMAP cls)"
  let ?R = "\<lambda>(attr, sig) (attr', sig'). attr' = attr \<and>
        TypeSignature_eq reg ops sig sig' \<and> TypeSignature_eq reg ops sig' sig"
  have params: "snd (type_parameters reg ops cls) =
      map (\<lambda>(attr, sig). (attr, TypeSignature_serialize reg ops sig)) ?T"
    by (simp add: type_parameters_def sort_key_fst_map)
  from rts have "list_all (\<lambda>(attr, sig). roundtrips reg ops type_dict sig) ?T"
    by (simp add: list_all_iff)
  from deserialize_parameters_roundtrip [OF this] obtain items'
    where des: "deserialize_parameters reg ops type_dict
       (map (\<lambda>(attr, sig). (attr, TypeSignature_serialize reg ops sig)) ?T) = Inr items'"
      and rel: "list_all2 ?R ?T items'" by blast
  from list_all2_keys [OF rel] have keys: "map fst items' = map fst ?T" .
  with distinct_keys_sort [OF dist] have d': "distinct (map fst items')" by simp
  then have di: "dict items' = items'" by (rule dict_id)
  let ?cls' = "\<lparr>cls_name = cls_name cls, TYPEMAP = items'\<rparr>"
  have create: "StructFactory_create reg ops type_dict (type_parameters reg ops cls) = Inr ?cls'"
    using des params di
    by (cases "type_parameters reg ops cls")
       (simp add: StructFactory_create_def type_parameters_def)
  have len: "length (TYPEMAP cls) = length items'"
    using list_all2_lengthD [OF rel] by simp
  have k: "fst ` set items' = fst ` set (TYPEMAP cls)"
  proof -
    have "set (map fst items') = set (map fst ?T)" by (simp only: keys)
    then show ?thesis by simp
  qed
  have e1: "dict_equal (TypeSignature_eq reg ops) (TYPEMAP cls) items'"
  proof (rule dict_equalI [OF len d'])
    fix k v
    assume "(k, v) \<in> set (TYPEMAP cls)"
    then have "(k, v) \<in> set ?T" by simp
    from list_all2_left [OF rel this]
    show "\<exists>w. (k, w) \<in> set items' \<and> TypeSignature_eq reg ops v w" by blast
  qed
  have e2: "dict_equal (TypeSignature_eq reg ops) items' (TYPEMAP cls)"
  proof (rule dict_equalI [OF len [symmetric] dist])
    fix k w
    assume "(k, w) \<in> set items'"
    from list_all2_right [OF rel this]
    show "\<exists>v. (k, v) \<in> set (TYPEMAP cls) \<and> TypeSignature_eq reg ops w v" by auto
  qed
  from create k e1 e2 show ?thesis by (intro exI [of _ ?cls']) simp
qed

text \<open>
  C8.  For a signature over a wrapped type that the registry and the type's own
  constructor rebuild, deserializing the serialized signature returns a signature
  equal to the original under \<^verbatim>\<open>TypeSignature.__eq__\<close>, in both directions: same
  required flag, same presence of a default, equal defaults and same descriptor of
  the wrapped type.  Hence for a schema of such signatures, \<^verbatim>\<open>StructFactory.create\<close>
  on the \<^verbatim>\<open>type_parameters\<close> of the class returns a class of the same name whose
  schema has the same field names and is equal to the original as a dictionary.
\<close>

theorem C8_signature_roundtrip:
  "(roundtrips reg ops type_dict sig \<longrightarrow>
      (\<exists>sig'.
         TypeSignature_deserialize reg ops (TypeSignature_serialize reg ops sig) type_dict =
           Inr sig' \<and>
         TypeSignature_eq reg ops sig sig' \<and> TypeSignature_eq reg ops sig' sig \<and>
         required sig' = required sig \<and>
         empty sig' = empty sig \<and>
         serialize_type reg (klazz sig') = serialize_type reg (klazz sig) \<and>
         slot_eq ops (default sig) (default sig'))) \<and>
   (distinct (map fst (TYPEMAP cls)) \<and>
    list_all (\<lambda>(attr, sig). roundtrips reg ops type_dict sig) (TYPEMAP cls) \<longrightarrow>
      (\<exists>cls'.
         StructFactory_create reg ops type_dict (type_parameters reg ops cls) = Inr cls' \<and>
         cls_name cls' = cls_name cls \<and>
         fst ` set (TYPEMAP cls') = fst ` set (TYPEMAP cls) \<and>
         dict_equal (TypeSignature_eq reg ops) (TYPEMAP cls) (TYPEMAP cls') \<and>
         dict_equal (TypeSignature_eq reg ops) (TYPEMAP cls') (TYPEMAP cls)))"
proof (intro conjI impI)
  assume "roundtrips reg ops type_dict sig"
  then show "\<exists>sig'.
         TypeSignature_deserialize reg ops (TypeSignature_serialize reg ops sig) type_dict =
           Inr sig' \<and>
         TypeSignature_eq reg ops sig sig' \<and> TypeSignature_eq reg ops sig' sig \<and>
         required sig' = required sig \<and>
         empty sig' = empty sig \<and>
         serialize_type reg (klazz sig') = serialize_type reg (klazz sig) \<and>
         slot_eq ops (default sig) (default sig')"
    by (rule signature_roundtrip)
next
  assume "distinct (map fst (TYPEMAP cls)) \<and>
    list_all (\<lambda>(attr, sig). roundtrips reg ops type_dict sig) (TYPEMAP cls)"
  then show "\<exists>cls'.
         StructFactory_create reg ops type_dict (type_parameters reg ops cls) = Inr cls' \<and>
         cls_name cls' = cls_name cls \<and>
         fst ` set (TYPEMAP cls') = fst ` set (TYPEMAP cls) \<and>
         dict_equal (TypeSignature_eq reg ops) (TYPEMAP cls) (TYPEMAP cls') \<and>
         dict_equal (TypeSignature_eq reg ops) (TYPEMAP cls') (TYPEMAP cls)"
    using schema_roundtrip [of cls reg ops type_dict] by blast
qed

lemma default_name_roundtrip:
  "TypeSignature_deserialize str_registry str_ops
     (TypeSignature_serialize str_registry str_ops default_name) () = Inr default_name"
  by (simp add: TypeSignature_deserialize_def TypeSignature_serialize_def empty_def
      TypeSignature_init_def default_name_def str_registry_def str_ops_def str_get_def
      str_instantiate_def str_isinstance_def)

lemma required_name_roundtrip:
  "TypeSignature_deserialize str_registry str_ops
     (TypeSignature_serialize str_registry str_ops required_name) () = Inr required_name"
  by (simp add: TypeSignature_deserialize_def TypeSignature_serialize_def empty_def
      TypeSignature_init_def required_name_def str_registry_def str_ops_def str_get_def
      str_instantiate_def str_isinstance_def)

lemma Guest_roundtrip:
  "StructFactory_create str_registry str_ops () (type_parameters str_registry str_ops Guest) =
   Inr \<lparr>cls_name = ''Guest'', TYPEMAP = [(''id'', required_name), (''name'', default_name)]\<rparr>"
  by (simp add: StructFactory_create_def type_parameters_def Guest_def dict_def
      TypeSignature_deserialize_def TypeSignature_serialize_def empty_def
      TypeSignature_init_def default_name_def required_name_def str_registry_def str_ops_def
      str_get_def str_instantiate_def str_isinstance_def)

theorem C8_signature_roundtrip_witness:
  "roundtrips str_registry str_ops () default_name \<and>
   TypeSignature_serialize str_registry str_ops default_name =
     (False, Raw [Lit ''nobody''], False, ''String'') \<and>
   TypeSignature_deserialize str_registry str_ops
     (TypeSignature_serialize str_registry str_ops default_name) () = Inr default_name \<and>
   TypeSignature_eq str_registry str_ops default_name default_name \<and>
   roundtrips str_registry str_ops () required_name \<and>
   TypeSignature_serialize str_registry str_ops required_name =
     (True, RawUnit, True, ''String'') \<and>
   TypeSignature_deserialize str_registry str_ops
     (TypeSignature_serialize str_registry str_ops required_name) () = Inr required_name \<and>
   TypeSignature_eq str_registry str_ops required_name required_name \<and>
   distinct (map fst (TYPEMAP Guest)) \<and>
   list_all (\<lambda>(attr, sig). roundtrips str_registry str_ops () sig) (TYPEMAP Guest) \<and>
   StructFactory_create str_registry str_ops () (type_parameters str_registry str_ops Guest) =
     Inr \<lparr>cls_name = ''Guest'',
          TYPEMAP = [(''id'', required_name), (''name'', default_name)]\<rparr> \<and>
   dict_equal (TypeSignature_eq str_registry str_ops) (TYPEMAP Guest)
     [(''id'', required_name), (''name'', default_name)]"
proof -
  have r1: "roundtrips str_registry str_ops () default_name"
    by (simp add: roundtrips_def default_name_def str_registry_def str_ops_def str_get_def
        str_instantiate_def str_isinstance_def str_eq_def)
  have r2: "roundtrips str_registry str_ops () required_name"
    by (simp add: roundtrips_def required_name_def str_registry_def)
  have d: "distinct (map fst (TYPEMAP Guest))"
    by (simp add: Guest_def)
  have rs: "list_all (\<lambda>(attr, sig). roundtrips str_registry str_ops () sig) (TYPEMAP Guest)"
    using r1 r2 by (simp add: Guest_def)
  from C8_signature_roundtrip [of str_registry str_ops "()" default_name Guest]
    C8_signature_roundtrip [of str_registry str_ops "()" required_name Guest]
    default_name_roundtrip required_name_roundtrip Guest_roundtrip r1 r2 d rs
  show ?thesis
    by (simp add: TypeSignature_serialize_def empty_def default_name_def required_name_def
        str_registry_def str_ops_def str_get_def)
qed

end
